theory Spec2Isabelle
  imports Main "HOL-Library.Sublist"
begin

section \<open>Python values\<close>

text \<open>
  A Python \<open>str\<close> is a sequence of Unicode code points, so a string is a list of
  natural numbers here (\<open>len\<close> and equality then agree with Python's). ASCII literals are
  written through \<open>ascii\<close>; the Vietnamese column headers of the bank's table are spelled
  out as code points.
\<close>

type_synonym pystr = "nat list"

definition ascii :: "string \<Rightarrow> pystr" where
  "ascii s = map of_char s"

text \<open>\<open>str.isspace\<close> for one code point (the white-space table of CPython).\<close>

definition isspace :: "nat \<Rightarrow> bool" where
  "isspace c \<longleftrightarrow>
     (9 \<le> c \<and> c \<le> 13) \<or> (28 \<le> c \<and> c \<le> 32) \<or> c = 133 \<or> c = 160 \<or> c = 5760 \<or>
     (8192 \<le> c \<and> c \<le> 8202) \<or> c = 8232 \<or> c = 8233 \<or> c = 8239 \<or> c = 8287 \<or> c = 12288"

definition strip :: "pystr \<Rightarrow> pystr" where
  "strip s = rev (dropWhile isspace (rev (dropWhile isspace s)))"

text \<open>\<open>sub in s\<close> on strings.\<close>

fun py_in :: "pystr \<Rightarrow> pystr \<Rightarrow> bool" where
  "py_in sub [] = (sub = [])"
| "py_in sub (c # cs) = (prefix sub (c # cs) \<or> py_in sub cs)"

text \<open>
  What \<open>json.load\<close> returns. A dict is an association list read through \<open>map_of\<close>,
  so the first binding of a key is the value the dict holds for it. Numbers are integers:
  no branch of the code modelled here tells a float from another value that is not a
  string.
\<close>

datatype json =
    JNull
  | JBool bool
  | JNum int
  | JStr pystr
  | JList "json list"
  | JDict "(pystr \<times> json) list"

type_synonym pydict = "(pystr \<times> json) list"

datatype pyerr = AttributeError | TypeError | ValueError | OSError | RequestError

text \<open>\<open>d.get(k, default)\<close>.\<close>

definition dget :: "pydict \<Rightarrow> pystr \<Rightarrow> json \<Rightarrow> json" where
  "dget d k dflt = (case map_of d k of None \<Rightarrow> dflt | Some v \<Rightarrow> v)"

text \<open>Truth value of an object in a condition (\<open>if x:\<close>, \<open>if not x:\<close>).\<close>

fun truthy :: "json \<Rightarrow> bool" where
  "truthy JNull = False"
| "truthy (JBool b) = b"
| "truthy (JNum n) = (n \<noteq> 0)"
| "truthy (JStr s) = (s \<noteq> [])"
| "truthy (JList xs) = (xs \<noteq> [])"
| "truthy (JDict d) = (d \<noteq> [])"

text \<open>
  \<open>for x in v\<close>: a list yields its items, a string its characters, a dict its keys;
  anything else is not iterable (\<open>TypeError\<close>).
\<close>

fun py_iter :: "json \<Rightarrow> pyerr + json list" where
  "py_iter (JList xs) = Inr xs"
| "py_iter (JStr s) = Inr (map (\<lambda>c. JStr [c]) s)"
| "py_iter (JDict d) = Inr (map (\<lambda>kv. JStr (fst kv)) d)"
| "py_iter _ = Inl TypeError"

text \<open>
  \<open>d.get(k, "").strip()\<close>: the method exists on strings only, so any other value
  raises \<open>AttributeError\<close>.
\<close>

definition get_strip :: "pydict \<Rightarrow> pystr \<Rightarrow> pyerr + pystr" where
  "get_strip d k = (case dget d k (JStr []) of JStr s \<Rightarrow> Inr (strip s) | _ \<Rightarrow> Inl AttributeError)"

text \<open>The column headers and keys the scheduler reads.\<close>

definition SO_BUT_TOAN :: pystr where
  "SO_BUT_TOAN = [83, 7888, 32, 66, 218, 84, 32, 84, 79, 193, 78]"

definition NGAY_GIAO_DICH :: pystr where
  "NGAY_GIAO_DICH = [78, 71, 192, 89, 32, 71, 73, 65, 79, 32, 68, 7882, 67, 72]"

definition NOI_DUNG :: pystr where
  "NOI_DUNG = [78, 7896, 73, 32, 68, 85, 78, 71]"

definition PHAT_SINH_CO :: pystr where
  "PHAT_SINH_CO = [80, 72, 193, 84, 32, 83, 73, 78, 72, 32, 67, 211]"

definition PHAT_SINH_NO :: pystr where
  "PHAT_SINH_NO = [80, 72, 193, 84, 32, 83, 73, 78, 72, 32, 78, 7906]"

section \<open>The data directory\<close>

text \<open>
  One persisted batch file: its path, its modification time and what \<open>json.load\<close>
  gives for it (\<open>None\<close> when opening or parsing it raises). The directory is the list
  \<open>glob.glob\<close> returns, in that order; paths in it are distinct.
\<close>

record datafile =
  fname :: pystr
  mtime :: int
  content :: "json option"

text \<open>\<open>max(files, key=os.path.getmtime)\<close>: the first file of greatest key.\<close>

fun max_by_mtime :: "datafile \<Rightarrow> datafile list \<Rightarrow> datafile" where
  "max_by_mtime best [] = best"
| "max_by_mtime best (f # fs) = max_by_mtime (if mtime best < mtime f then f else best) fs"

definition newest_file :: "datafile list \<Rightarrow> datafile option" where
  "newest_file files = (case files of [] \<Rightarrow> None | f # fs \<Rightarrow> Some (max_by_mtime f fs))"

section \<open>Deduplication: \<open>find_unique_transactions_v2\<close>\<close>

text \<open>
  The loop over one old file's transactions. An exception inside it (an identifier that
  is not a string) ends the work on this file; identifiers appended before it stay.
\<close>

fun collect_ids :: "json list \<Rightarrow> pystr list \<Rightarrow> pystr list" where
  "collect_ids [] old_transaction_ids = old_transaction_ids"
| "collect_ids (JDict txn # rest) old_transaction_ids =
     (case get_strip txn SO_BUT_TOAN of
        Inl e \<Rightarrow> old_transaction_ids
      | Inr txn_id \<Rightarrow>
          collect_ids rest
            (if txn_id \<noteq> [] then old_transaction_ids @ [txn_id] else old_transaction_ids))"
| "collect_ids (other # rest) old_transaction_ids = collect_ids rest old_transaction_ids"

text \<open>
  \<open>file_data.get("transactions", [])\<close>, unwrapped once more when it is itself a dict.
\<close>

definition transactions_of :: "pydict \<Rightarrow> json" where
  "transactions_of file_data =
     (case dget file_data (ascii ''transactions'') (JList []) of
        JDict inner \<Rightarrow> dget inner (ascii ''transactions'') (JList [])
      | transactions \<Rightarrow> transactions)"

text \<open>The body of the loop over the old files, for one file.\<close>

definition old_ids_of_file :: "datafile \<Rightarrow> pystr list \<Rightarrow> pystr list" where
  "old_ids_of_file f old_transaction_ids =
     (case content f of
        None \<Rightarrow> old_transaction_ids
      | Some (JDict file_data) \<Rightarrow>
          (case py_iter (transactions_of file_data) of
             Inl e \<Rightarrow> old_transaction_ids
           | Inr transactions \<Rightarrow> collect_ids transactions old_transaction_ids)
      | Some other \<Rightarrow> old_transaction_ids)"

fun old_ids_loop :: "datafile list \<Rightarrow> pystr list \<Rightarrow> pystr list" where
  "old_ids_loop [] old_transaction_ids = old_transaction_ids"
| "old_ids_loop (f # fs) old_transaction_ids = old_ids_loop fs (old_ids_of_file f old_transaction_ids)"

text \<open>
  The loop over the newest file's transactions. Here an exception leaves the whole
  function (it returns \<open>False\<close>), so the loop has an error result.
\<close>

fun unique_loop :: "pystr list \<Rightarrow> json list \<Rightarrow> pydict list \<Rightarrow> pyerr + pydict list" where
  "unique_loop old_transaction_ids [] unique_transactions = Inr unique_transactions"
| "unique_loop old_transaction_ids (JDict txn # rest) unique_transactions =
     (case get_strip txn SO_BUT_TOAN of
        Inl e \<Rightarrow> Inl e
      | Inr txn_id \<Rightarrow>
          unique_loop old_transaction_ids rest
            (if txn_id = [] \<or> txn_id \<in> set old_transaction_ids then unique_transactions
             else unique_transactions @ [txn]))"
| "unique_loop old_transaction_ids (other # rest) unique_transactions =
     unique_loop old_transaction_ids rest unique_transactions"

text \<open>
  Why \<open>find_unique_transactions_v2\<close> stops before it has a list of new transactions.
\<close>

datatype stop = NoFiles | InvalidNewestFormat | InvalidTransactionsFormat | Raised pyerr

text \<open>
  The function up to the line that logs the number of new transactions: the newest file
  against all the others.
\<close>

definition unique_transactions_of :: "datafile list \<Rightarrow> stop + pydict list" where
  "unique_transactions_of transaction_files =
     (case newest_file transaction_files of
        None \<Rightarrow> Inl NoFiles
      | Some newest \<Rightarrow>
          (let old_files = filter (\<lambda>f. fname f \<noteq> fname newest) transaction_files;
               old_transaction_ids = old_ids_loop old_files []
           in case content newest of
                None \<Rightarrow> Inl (Raised OSError)
              | Some (JDict newest_data) \<Rightarrow>
                  (case transactions_of newest_data of
                     JList new_transactions \<Rightarrow>
                       (case unique_loop old_transaction_ids new_transactions [] of
                          Inl e \<Rightarrow> Inl (Raised e)
                        | Inr unique_transactions \<Rightarrow> Inr unique_transactions)
                   | other \<Rightarrow> Inl InvalidTransactionsFormat)
              | Some other \<Rightarrow> Inl InvalidNewestFormat))"

text \<open>
  For the statements: the identifier of a transaction, the batches whose identifiers
  can be read (every dict among the items carries a string, or nothing, under the
  identifier's header), and the transactions of a batch.
\<close>

definition txn_id :: "pydict \<Rightarrow> pystr" where
  "txn_id txn = (case dget txn SO_BUT_TOAN (JStr []) of JStr s \<Rightarrow> strip s | _ \<Rightarrow> [])"

fun readable_item :: "json \<Rightarrow> bool" where
  "readable_item (JDict txn) = (case dget txn SO_BUT_TOAN (JStr []) of JStr s \<Rightarrow> True | _ \<Rightarrow> False)"
| "readable_item other = True"

fun dicts_of :: "json list \<Rightarrow> pydict list" where
  "dicts_of [] = []"
| "dicts_of (JDict txn # rest) = txn # dicts_of rest"
| "dicts_of (other # rest) = dicts_of rest"

definition batch_items :: "datafile \<Rightarrow> json list option" where
  "batch_items f =
     (case content f of
        Some (JDict file_data) \<Rightarrow>
          (case transactions_of file_data of JList items \<Rightarrow> Some items | _ \<Rightarrow> None)
      | _ \<Rightarrow> None)"

definition readable_batch :: "datafile \<Rightarrow> bool" where
  "readable_batch f = (case batch_items f of Some items \<Rightarrow> list_all readable_item items | None \<Rightarrow> False)"

definition batch_transactions :: "datafile \<Rightarrow> pydict list" where
  "batch_transactions f = (case batch_items f of Some items \<Rightarrow> dicts_of items | None \<Rightarrow> [])"

definition nonempty_ids :: "datafile \<Rightarrow> pystr list" where
  "nonempty_ids f = filter (\<lambda>i. i \<noteq> []) (map txn_id (batch_transactions f))"

text \<open>Two small batches to evaluate the functions on.\<close>

definition mk_txn :: "pystr \<Rightarrow> pydict" where
  "mk_txn i = [(SO_BUT_TOAN, JStr i)]"

definition mk_batch :: "pystr \<Rightarrow> int \<Rightarrow> json list \<Rightarrow> datafile" where
  "mk_batch name t items =
     \<lparr>fname = name, mtime = t, content = Some (JDict [(ascii ''transactions'', JList items)])\<rparr>"

definition batch_A :: datafile where
  "batch_A = mk_batch (ascii ''a'') 1 [JDict (mk_txn (ascii ''FT1'')), JDict (mk_txn [])]"

definition batch_B :: datafile where
  "batch_B = mk_batch (ascii ''b'') 2
     [JDict (mk_txn (ascii ''FT1 '')), JDict (mk_txn (ascii ''FT2'')), JDict (mk_txn (ascii '' ''))]"

section \<open>Forwarding: \<open>push_transactions_to_lark_v2\<close>, \<open>process_woocommerce_transactions\<close>\<close>

text \<open>
  The message pushed for one transaction. The Python fills one of three templates with
  fields of the transaction; here a message is the template chosen and the fields put
  into it (amount, date, description, reference).
\<close>

datatype content =
    BalanceUp json json json json
  | BalanceDown json json json json
  | NewTransaction json json json

definition lark_content :: "pydict \<Rightarrow> content" where
  "lark_content txn =
     (let trans_date = dget txn NGAY_GIAO_DICH (JStr (ascii ''N/A''));
          credit_amount = dget txn PHAT_SINH_CO (JStr (ascii ''0''));
          debit_amount = dget txn PHAT_SINH_NO (JStr (ascii ''0''));
          trans_ref = dget txn SO_BUT_TOAN (JStr (ascii ''N/A''));
          description = dget txn NOI_DUNG (JStr (ascii ''N/A''))
      in if credit_amount \<noteq> JStr (ascii ''0'')
         then BalanceUp credit_amount trans_date description trans_ref
         else if debit_amount \<noteq> JStr (ascii ''0'')
         then BalanceDown debit_amount trans_date description trans_ref
         else NewTransaction trans_date description trans_ref)"

text \<open>
  One call of an outbound service either raises or returns a value.
  \<open>push_to_Lark_Channel\<close> has no handler around its two HTTP requests, so what
  \<open>requests\<close> raises leaves it. The services are given as functions of the position
  \<open>i\<close> (from 0) of the transaction in the loop that calls them.
\<close>

datatype reply = Raises pyerr | Returns json

text \<open>\<open>result and isinstance(result, dict) and result.get("code") == 0\<close>\<close>

definition push_succeeded :: "json \<Rightarrow> bool" where
  "push_succeeded result =
     (case result of
        JDict d \<Rightarrow>
          d \<noteq> [] \<and>
          (case dget d (ascii ''code'') JNull of JNum n \<Rightarrow> n = 0 | JBool b \<Rightarrow> \<not> b | _ \<Rightarrow> False)
      | _ \<Rightarrow> False)"

text \<open>
  What a run of \<open>push_transactions_to_lark_v2\<close> leaves behind: the messages handed to
  \<open>push_to_Lark_Channel\<close> in order, the numbers \<open>i\<close> (from 1) of the warnings
  ``Failed to push transaction i'', the value returned or the exception that leaves the
  function, and the caller's list, which the function reverses in place.
\<close>

record lark_run =
  pushed :: "content list"
  warned :: "nat list"
  outcome :: "pyerr + bool"
  reversed :: "pydict list"

fun push_loop ::
  "(nat \<Rightarrow> reply) \<Rightarrow> nat \<Rightarrow> pydict list \<Rightarrow> nat \<Rightarrow> content list \<Rightarrow> nat list \<Rightarrow>
   content list \<times> nat list \<times> (pyerr + nat)" where
  "push_loop lark i [] success_count sent warnings = (sent, warnings, Inr success_count)"
| "push_loop lark i (txn # rest) success_count sent warnings =
     (case lark i of
        Raises e \<Rightarrow> (sent @ [lark_content txn], warnings, Inl e)
      | Returns result \<Rightarrow>
          if push_succeeded result
          then push_loop lark (Suc i) rest (success_count + 1) (sent @ [lark_content txn]) warnings
          else push_loop lark (Suc i) rest success_count (sent @ [lark_content txn])
                 (warnings @ [Suc i]))"

definition push_transactions_to_lark_v2 :: "(nat \<Rightarrow> reply) \<Rightarrow> pydict list \<Rightarrow> lark_run" where
  "push_transactions_to_lark_v2 lark transactions =
     (if transactions = []
      then \<lparr>pushed = [], warned = [], outcome = Inr True, reversed = transactions\<rparr>
      else
        (case push_loop lark 0 (rev transactions) 0 [] [] of
           (sent, warnings, Inl e) \<Rightarrow>
             \<lparr>pushed = sent, warned = warnings, outcome = Inl e, reversed = rev transactions\<rparr>
         | (sent, warnings, Inr success_count) \<Rightarrow>
             \<lparr>pushed = sent, warned = warnings, outcome = Inr (success_count > 0),
              reversed = rev transactions\<rparr>))"

text \<open>
  The order system. Its credentials come from the environment; without them the function
  does nothing. A run leaves the transactions handed to \<open>process_woo_transaction\<close>,
  the two counters, and the numbers \<open>i\<close> (from 1) of the transactions logged as error
  or exception.
\<close>

record woo_env =
  woo_consumer_key :: "pystr option"
  woo_consumer_secret :: "pystr option"

record woo_run =
  woo_called :: "pydict list"
  processed_count :: nat
  detected_count :: nat
  woo_failed :: "nat list"

definition falsy_env :: "pystr option \<Rightarrow> bool" where
  "falsy_env v = (case v of None \<Rightarrow> True | Some s \<Rightarrow> s = [])"

fun woo_loop :: "(nat \<Rightarrow> reply) \<Rightarrow> nat \<Rightarrow> pydict list \<Rightarrow> woo_run \<Rightarrow> woo_run" where
  "woo_loop woo i [] run = run"
| "woo_loop woo i (txn # rest) run =
     (if dget txn PHAT_SINH_CO (JStr (ascii ''0'')) \<noteq> JStr (ascii ''0'')
      then
        (let called = run\<lparr>woo_called := woo_called run @ [txn]\<rparr>;
             failed = called\<lparr>woo_failed := woo_failed run @ [Suc i]\<rparr>
         in case woo i of
              Returns (JDict woo_result) \<Rightarrow>
                if dget woo_result (ascii ''status'') JNull = JStr (ascii ''success'')
                then woo_loop woo (Suc i) rest
                       (called\<lparr>processed_count := processed_count run + 1,
                               detected_count := detected_count run + 1\<rparr>)
                else if truthy (dget woo_result (ascii ''woo_order_detected'') JNull)
                then woo_loop woo (Suc i) rest (called\<lparr>detected_count := detected_count run + 1\<rparr>)
                else if dget woo_result (ascii ''status'') JNull = JStr (ascii ''not_woo_transaction'')
                then woo_loop woo (Suc i) rest called
                else woo_loop woo (Suc i) rest failed
            | Returns other \<Rightarrow> woo_loop woo (Suc i) rest failed
            | Raises e \<Rightarrow> woo_loop woo (Suc i) rest failed)
      else woo_loop woo (Suc i) rest run)"

definition process_woocommerce_transactions ::
  "woo_env \<Rightarrow> (nat \<Rightarrow> reply) \<Rightarrow> pydict list \<Rightarrow> woo_run" where
  "process_woocommerce_transactions env woo transactions =
     (let nothing = \<lparr>woo_called = [], processed_count = 0, detected_count = 0, woo_failed = []\<rparr>
      in if transactions = [] then nothing
         else if falsy_env (woo_consumer_key env) \<or> falsy_env (woo_consumer_secret env) then nothing
         else woo_loop woo 0 transactions nothing)"

text \<open>
  \<open>cleanup_data_directory(except_files=[newest_file])\<close>: every batch file but the
  excepted ones is removed (a removal that fails is logged and skipped in the source;
  here removals succeed).
\<close>

definition cleanup_data_directory :: "pystr list \<Rightarrow> datafile list \<Rightarrow> datafile list" where
  "cleanup_data_directory except_files files = filter (\<lambda>f. fname f \<in> set except_files) files"

text \<open>
  The whole of \<open>find_unique_transactions_v2\<close>: the value returned, the messages pushed,
  the transactions handed to the order system and the batch files left.
\<close>

record find_run =
  returned :: bool
  notifications :: "content list"
  orders :: "pydict list"
  files_left :: "datafile list"

definition find_unique_transactions_v2 ::
  "woo_env \<Rightarrow> (nat \<Rightarrow> reply) \<Rightarrow> (nat \<Rightarrow> reply) \<Rightarrow> datafile list \<Rightarrow> find_run" where
  "find_unique_transactions_v2 env lark woo transaction_files =
     (case unique_transactions_of transaction_files of
        Inl why \<Rightarrow>
          \<lparr>returned = False, notifications = [], orders = [], files_left = transaction_files\<rparr>
      | Inr unique_transactions \<Rightarrow>
          (let kept = cleanup_data_directory
                        (case newest_file transaction_files of None \<Rightarrow> [] | Some n \<Rightarrow> [fname n])
                        transaction_files
           in if unique_transactions \<noteq> []
              then
                (let run = push_transactions_to_lark_v2 lark unique_transactions
                 in case outcome run of
                      Inl e \<Rightarrow>
                        \<lparr>returned = False, notifications = pushed run, orders = [],
                         files_left = transaction_files\<rparr>
                    | Inr True \<Rightarrow>
                        \<lparr>returned = True, notifications = pushed run,
                         orders = woo_called (process_woocommerce_transactions env woo (reversed run)),
                         files_left = kept\<rparr>
                    | Inr False \<Rightarrow>
                        \<lparr>returned = True, notifications = pushed run, orders = [], files_left = kept\<rparr>)
              else \<lparr>returned = True, notifications = [], orders = [], files_left = kept\<rparr>))"

text \<open>For the statements: a call that returns, and a call that returns a success.\<close>

definition is_returns :: "reply \<Rightarrow> bool" where
  "is_returns r = (case r of Returns v \<Rightarrow> True | Raises e \<Rightarrow> False)"

definition reply_ok :: "reply \<Rightarrow> bool" where
  "reply_ok r = (case r of Returns result \<Rightarrow> push_succeeded result | Raises e \<Rightarrow> False)"

text \<open>Replies and transactions to evaluate the forwarding on.\<close>

definition lark_ok :: reply where
  "lark_ok = Returns (JDict [(ascii ''code'', JNum 0)])"

definition lark_refused :: reply where
  "lark_refused = Returns (JDict [(ascii ''code'', JNum 230001), (ascii ''msg'', JStr (ascii ''refused''))])"

definition lark_second_raises :: "nat \<Rightarrow> reply" where
  "lark_second_raises i = (if i = 1 then Raises RequestError else lark_ok)"

definition lark_second_refused :: "nat \<Rightarrow> reply" where
  "lark_second_refused i = (if i = 1 then lark_refused else lark_ok)"

definition three_txns :: "pydict list" where
  "three_txns = [mk_txn (ascii ''FT1''), mk_txn (ascii ''FT2''), mk_txn (ascii ''FT3'')]"

definition batch_C :: datafile where
  "batch_C = mk_batch (ascii ''c'') 3 (map JDict three_txns)"

definition no_woo :: woo_env where
  "no_woo = \<lparr>woo_consumer_key = None, woo_consumer_secret = None\<rparr>"

definition batch_D :: datafile where
  "batch_D = mk_batch (ascii ''d'') 4
     [JDict (mk_txn (ascii ''FT1'')), JDict (mk_txn (ascii ''FT9'')), JDict (mk_txn (ascii ''FT9 ''))]"

section \<open>Login: \<open>log_in_v2\<close>\<close>

text \<open>
  What the browser shows in the course of one attempt: whether the captcha image is
  found, its \<open>src\<close> attribute, the text \<open>read_captcha\<close> gives for it with the blanks
  removed (\<open>None\<close> when decoding or reading raises), whether filling the form or clicking
  raises, the address and title of the page two seconds after the click (\<open>None\<close> when
  reading them raises), and the error dialog.
\<close>

datatype dialog = NoDialog | DialogRaises | Dialog pystr

record attempt =
  captcha_found :: bool
  img_src :: "pystr option"
  captcha_text :: "pystr option"
  form_raises :: bool
  after_click :: "(pystr \<times> pystr) option"
  error_dialog :: dialog

definition DANG_NHAP :: pystr where
  "DANG_NHAP = [272, 259, 110, 103, 32, 110, 104, 7853, 112]"

definition success_indicators :: "pystr \<Rightarrow> pystr \<Rightarrow> bool" where
  "success_indicators current_url page_title \<longleftrightarrow>
     (py_in (ascii ''/cp/'') current_url \<and> \<not> py_in (ascii ''login'') current_url) \<or>
     py_in (ascii ''account-info'') current_url \<or>
     py_in (ascii ''transaction-inquiry'') current_url \<or>
     (\<not> py_in DANG_NHAP page_title \<and> strip page_title \<noteq> [])"

datatype step = Return bool | Continue

datatype login_event = Navigate | Solve pystr | Submit pystr

text \<open>
  The body of the loop, for attempt number \<open>attempt\<close> (from 0): what it does in the
  browser and how it leaves the iteration.
\<close>

definition login_attempt :: "int \<Rightarrow> nat \<Rightarrow> attempt \<Rightarrow> login_event list \<times> step" where
  "login_attempt max_attempts attempt a =
     (if \<not> captcha_found a
      then ([Navigate], if int attempt \<ge> max_attempts - 1 then Return False else Continue)
      else
        (case img_src a of
           None \<Rightarrow> ([Navigate], Continue)
         | Some src \<Rightarrow>
             if src = [] then ([Navigate], Continue)
             else if \<not> prefix (ascii ''data:image'') src then ([Navigate], Continue)
             else
               (case captcha_text a of
                  None \<Rightarrow> ([Navigate, Solve src], Continue)
                | Some text \<Rightarrow>
                    if form_raises a then ([Navigate, Solve src], Continue)
                    else
                      ([Navigate, Solve src, Submit text],
                       case after_click a of
                         None \<Rightarrow> Continue
                       | Some (current_url, page_title) \<Rightarrow>
                           if success_indicators current_url page_title then Return True
                           else
                             (case error_dialog a of
                                Dialog shown \<Rightarrow>
                                  if strip shown = [] then Continue
                                  else if py_in (ascii ''GW715'') (strip shown) then Continue
                                  else if py_in (ascii ''GW18'') (strip shown) then Return False
                                  else Return False
                              | NoDialog \<Rightarrow> Continue
                              | DialogRaises \<Rightarrow> Continue)))))"

record login_run =
  logged_in :: bool
  attempts :: nat
  events :: "login_event list"

function login_loop :: "(nat \<Rightarrow> attempt) \<Rightarrow> int \<Rightarrow> nat \<Rightarrow> login_event list \<Rightarrow> login_run" where
  "login_loop browser max_attempts attempt sofar =
     (if int attempt < max_attempts
      then
        (case login_attempt max_attempts attempt (browser attempt) of
           (evs, Return r) \<Rightarrow> \<lparr>logged_in = r, attempts = attempt + 1, events = sofar @ evs\<rparr>
         | (evs, Continue) \<Rightarrow> login_loop browser max_attempts (Suc attempt) (sofar @ evs))
      else \<lparr>logged_in = False, attempts = attempt, events = sofar\<rparr>)"
  by pat_completeness auto
termination
  by (relation "measure (\<lambda>(browser, max_attempts, attempt, sofar). nat (max_attempts - int attempt))") auto

declare login_loop.simps [simp del]

text \<open>
  \<open>max_attempts = int(os.getenv("MB_LOGIN_MAX_ATTEMPTS", "3"))\<close>: the variable, when
  set, is given as the number it spells.
\<close>

definition max_attempts_of :: "int option \<Rightarrow> int" where
  "max_attempts_of MB_LOGIN_MAX_ATTEMPTS = (case MB_LOGIN_MAX_ATTEMPTS of None \<Rightarrow> 3 | Some n \<Rightarrow> n)"

definition log_in_v2 :: "int option \<Rightarrow> (nat \<Rightarrow> attempt) \<Rightarrow> login_run" where
  "log_in_v2 MB_LOGIN_MAX_ATTEMPTS browser =
     login_loop browser (max_attempts_of MB_LOGIN_MAX_ATTEMPTS) 0 []"

text \<open>
  For the statements. An attempt that was submitted with the captcha read from its own
  image, and the three answers to it that the retry policy tells apart: success, an error dialog that
  names GW715, an error dialog that does not.
\<close>

definition submitted :: "attempt \<Rightarrow> bool" where
  "submitted a \<longleftrightarrow>
     captcha_found a \<and>
     (case img_src a of Some src \<Rightarrow> src \<noteq> [] \<and> prefix (ascii ''data:image'') src | None \<Rightarrow> False) \<and>
     captcha_text a \<noteq> None \<and> \<not> form_raises a"

definition succeeds :: "attempt \<Rightarrow> bool" where
  "succeeds a \<longleftrightarrow>
     (case after_click a of Some (current_url, page_title) \<Rightarrow> success_indicators current_url page_title
      | None \<Rightarrow> False)"

definition refused_with :: "attempt \<Rightarrow> pystr option" where
  "refused_with a =
     (case after_click a of
        Some (current_url, page_title) \<Rightarrow>
          if success_indicators current_url page_title then None
          else (case error_dialog a of
                  Dialog shown \<Rightarrow> if strip shown = [] then None else Some (strip shown)
                | _ \<Rightarrow> None)
      | None \<Rightarrow> None)"

definition transient :: "attempt \<Rightarrow> bool" where
  "transient a \<longleftrightarrow> (case refused_with a of Some e \<Rightarrow> py_in (ascii ''GW715'') e | None \<Rightarrow> False)"

definition terminal :: "attempt \<Rightarrow> bool" where
  "terminal a \<longleftrightarrow> (case refused_with a of Some e \<Rightarrow> \<not> py_in (ascii ''GW715'') e | None \<Rightarrow> False)"

definition challenge :: "attempt \<Rightarrow> login_event list" where
  "challenge a =
     [Navigate, Solve (case img_src a of Some src \<Rightarrow> src | None \<Rightarrow> []),
      Submit (case captcha_text a of Some text \<Rightarrow> text | None \<Rightarrow> [])]"

text \<open>Attempts to evaluate the login on.\<close>

definition attempt_gw715 :: attempt where
  "attempt_gw715 =
     \<lparr>captcha_found = True, img_src = Some (ascii ''data:image/png;base64,AAAA''),
      captcha_text = Some (ascii ''X7K2''), form_raises = False,
      after_click = Some (ascii ''https://ebank.mbbank.com.vn/cp/pl/login'', DANG_NHAP),
      error_dialog = Dialog (ascii ''GW715 - captcha'')\<rparr>"

definition attempt_ok :: attempt where
  "attempt_ok = attempt_gw715\<lparr>after_click := Some (ascii ''https://ebank.mbbank.com.vn/cp/account-info'', ascii ''MB''),
      error_dialog := NoDialog\<rparr>"

definition attempt_gw18 :: attempt where
  "attempt_gw18 = attempt_gw715\<lparr>error_dialog := Dialog (ascii ''GW18 - locked'')\<rparr>"

definition twice_then_ok :: "nat \<Rightarrow> attempt" where
  "twice_then_ok k = (if k < 2 then attempt_gw715 else attempt_ok)"

section \<open>Time and the standard library\<close>

text \<open>
  A \<open>datetime\<close> is the wall-clock time of the business zone (Asia/Ho\_Chi\_Minh, a fixed
  +07:00 over the period the program runs in) in microseconds from a fixed midnight, so
  that comparison and \<open>timedelta\<close> arithmetic are those of the integers and localising a
  naive value changes nothing. The bounds of Python's \<open>datetime\<close> are not modelled.

  Parsing, formatting and JSON writing belong to the Python library, not to this
  program; they are parameters of the model. \<open>strptime\<close> gives \<open>None\<close> where Python
  raises; \<open>fromisoformat\<close> gives the naive fields read and the UTC offset, if the string
  has one, in microseconds; \<open>json_dump\<close> gives the chunks \<open>json.dump\<close> writes, in
  order.
\<close>

type_synonym datetime = int

text \<open>
  The format strings the scheduler uses: \<^verbatim>\<open>%d/%m/%Y %H:%M:%S\<close>, \<^verbatim>\<open>%d/%m/%Y %H:%M\<close>,
  \<^verbatim>\<open>%d/%m/%Y\<close>, \<^verbatim>\<open>%Y-%m-%d %H:%M:%S\<close>, \<^verbatim>\<open>%d-%m-%Y %H:%M:%S\<close> and
  \<^verbatim>\<open>%Y%m%d_%H%M%S\<close>.
\<close>

datatype fmt = DMY_HMS | DMY_HM | DMY | YMD_HMS | DMY_DASH | STAMP

record pylib =
  strptime :: "fmt \<Rightarrow> pystr \<Rightarrow> datetime option"
  strftime :: "fmt \<Rightarrow> datetime \<Rightarrow> pystr"
  fromisoformat :: "pystr \<Rightarrow> (datetime \<times> int option) option"
  json_dump :: "json \<Rightarrow> pystr list"

definition seconds :: "int \<Rightarrow> int" where
  "seconds n = n * 1000000"

definition minutes :: "int \<Rightarrow> int" where
  "minutes n = seconds (60 * n)"

definition hours :: "int \<Rightarrow> int" where
  "hours n = minutes (60 * n)"

section \<open>Persisting a batch\<close>

text \<open>
  The file system as far as the data directory goes: a map from paths to contents, and
  the operations the two persisting paths perform on it. Opening for writing creates or
  empties the file, a write appends, a rename replaces the target in one step.
\<close>

type_synonym filesystem = "pystr \<Rightarrow> pystr option"

datatype fs_op =
    Makedirs pystr
  | OpenWrite pystr
  | Write pystr pystr
  | Remove pystr
  | Rename pystr pystr

fun apply_op :: "filesystem \<Rightarrow> fs_op \<Rightarrow> filesystem" where
  "apply_op fs (Makedirs d) = fs"
| "apply_op fs (OpenWrite p) = fs(p \<mapsto> [])"
| "apply_op fs (Write p chunk) = fs(p \<mapsto> (case fs p of Some c \<Rightarrow> c | None \<Rightarrow> []) @ chunk)"
| "apply_op fs (Remove p) = fs(p := None)"
| "apply_op fs (Rename src dst) = (fs(dst := fs src))(src := None)"

definition batch_filename :: "pylib \<Rightarrow> pystr \<Rightarrow> datetime \<Rightarrow> pystr" where
  "batch_filename L data_dir t =
     data_dir @ ascii ''/mb_biz_transactions_'' @ strftime L STAMP t @ ascii ''.json''"

definition temp_of :: "pystr \<Rightarrow> pystr" where
  "temp_of filename = filename @ ascii ''.tmp''"

text \<open>The batch \<open>save_transactions_to_file\<close> writes.\<close>

definition data_to_save :: "pylib \<Rightarrow> datetime \<Rightarrow> json list \<Rightarrow> json" where
  "data_to_save L current_vietnam_time transactions_list =
     JDict
       [(ascii ''timestamp'', JStr (strftime L YMD_HMS current_vietnam_time)),
        (ascii ''timestamp_utc'', JStr (strftime L YMD_HMS (current_vietnam_time - hours 7))),
        (ascii ''timezone'', JStr (ascii ''Asia/Ho_Chi_Minh'')),
        (ascii ''timezone_offset'', JStr (ascii ''+07:00'')),
        (ascii ''status'', JStr (ascii ''success'')),
        (ascii ''account_info'',
           JDict [(ascii ''last_updated'', JStr (strftime L DMY_DASH current_vietnam_time))]),
        (ascii ''count'', JNum (int (length transactions_list))),
        (ascii ''transactions'', JList transactions_list)]"

text \<open>
  The file operations of \<open>save_transactions_to_file\<close> when none of them raises: the
  write test, the temporary file written chunk by chunk, the old file of the same name
  removed if there is one, the rename. With an empty list the function returns before
  any of them.
\<close>

definition save_transactions_to_file :: "pylib \<Rightarrow> pystr \<Rightarrow> datetime \<Rightarrow> filesystem \<Rightarrow> json list \<Rightarrow> fs_op list" where
  "save_transactions_to_file L data_dir current_vietnam_time fs transactions_list =
     (if transactions_list = [] then []
      else
        (let test_file = data_dir @ ascii ''/.write_test'';
             filename = batch_filename L data_dir current_vietnam_time;
             temp_filename = temp_of filename
         in [Makedirs data_dir, OpenWrite test_file, Write test_file (ascii ''test''), Remove test_file,
             OpenWrite temp_filename] @
            map (Write temp_filename) (json_dump L (data_to_save L current_vietnam_time transactions_list)) @
            (if fs filename \<noteq> None then [Remove filename] else []) @
            [Rename temp_filename filename]))"

text \<open>
  The ``no transactions'' marker \<open>fetch_transactions_with_active_session_v2\<close> writes,
  with its three readings of the clock.
\<close>

definition empty_data :: "pylib \<Rightarrow> datetime \<Rightarrow> datetime \<Rightarrow> json" where
  "empty_data L t1 t2 =
     JDict
       [(ascii ''timestamp'', JStr (strftime L YMD_HMS t1)),
        (ascii ''status'', JStr (ascii ''no_transactions'')),
        (ascii ''account_info'', JDict [(ascii ''last_updated'', JStr (strftime L DMY_DASH t2))]),
        (ascii ''count'', JNum 0),
        (ascii ''transactions'', JList [])]"

definition save_empty_result :: "pylib \<Rightarrow> pystr \<Rightarrow> datetime \<Rightarrow> datetime \<Rightarrow> datetime \<Rightarrow> fs_op list" where
  "save_empty_result L data_dir t1 t2 t3 =
     (let filename = batch_filename L data_dir t3
      in [Makedirs data_dir, OpenWrite (temp_of filename)] @
         map (Write (temp_of filename)) (json_dump L (empty_data L t1 t2)) @
         [Rename (temp_of filename) filename])"

text \<open>
  The file system after the first \<open>k\<close> operations: what a reader can find at any
  moment, and what is left when an operation raises or the process dies.
\<close>

definition after_ops :: "filesystem \<Rightarrow> fs_op list \<Rightarrow> nat \<Rightarrow> filesystem" where
  "after_ops fs ops k = foldl apply_op fs (take k ops)"

fun touches :: "pystr \<Rightarrow> fs_op \<Rightarrow> bool" where
  "touches p (Makedirs d) = False"
| "touches p (OpenWrite q) = (p = q)"
| "touches p (Write q chunk) = (p = q)"
| "touches p (Remove q) = (p = q)"
| "touches p (Rename src dst) = (p = src \<or> p = dst)"

section \<open>The watermark: \<open>get_last_fetch_time_from_json\<close>, \<open>get_from_date_for_fetch\<close>\<close>

definition replace_end_of_day :: "datetime \<Rightarrow> datetime" where
  "replace_end_of_day t = t - t mod hours 24 + hours 23 + minutes 59 + seconds 59 + t mod seconds 1"

definition start_of_day :: "datetime \<Rightarrow> datetime" where
  "start_of_day t = t - t mod hours 24"

text \<open>\<open>s.split()[0]\<close> for a string that has a character which is not a blank.\<close>

definition first_word :: "pystr \<Rightarrow> pystr" where
  "first_word s = takeWhile (\<lambda>c. \<not> isspace c) (dropWhile isspace s)"

text \<open>
  The parsing of one transaction's date, lines 155 to 171: \<open>None\<close> is the exception
  that the loop logs before it goes on with the next transaction.
\<close>

definition parse_transaction_time :: "pylib \<Rightarrow> pystr \<Rightarrow> datetime option" where
  "parse_transaction_time L trans_date_time =
     (if py_in (ascii '':'') trans_date_time
      then
        (case strptime L DMY_HMS trans_date_time of
           Some transaction_dt \<Rightarrow> Some transaction_dt
         | None \<Rightarrow>
             (case strptime L DMY_HM trans_date_time of
                Some transaction_dt \<Rightarrow> Some transaction_dt
              | None \<Rightarrow>
                  (case strptime L DMY (first_word trans_date_time) of
                     Some transaction_dt \<Rightarrow> Some (replace_end_of_day transaction_dt)
                   | None \<Rightarrow> None)))
      else
        (case strptime L DMY trans_date_time of
           Some transaction_dt \<Rightarrow> Some (replace_end_of_day transaction_dt)
         | None \<Rightarrow> None))"

text \<open>
  The loop over the transactions of the newest file. An item that is not a dict, or a
  date that is not a string, raises outside the inner handler: the error result.
\<close>

fun latest_loop :: "pylib \<Rightarrow> json list \<Rightarrow> datetime option \<Rightarrow> pyerr + datetime option" where
  "latest_loop L [] latest_transaction_time = Inr latest_transaction_time"
| "latest_loop L (JDict txn # rest) latest_transaction_time =
     (case get_strip txn NGAY_GIAO_DICH of
        Inl e \<Rightarrow> Inl e
      | Inr trans_date_time \<Rightarrow>
          if trans_date_time \<noteq> []
          then
            (case parse_transaction_time L trans_date_time of
               None \<Rightarrow> latest_loop L rest latest_transaction_time
             | Some transaction_dt \<Rightarrow>
                 latest_loop L rest
                   (case latest_transaction_time of
                      None \<Rightarrow> Some transaction_dt
                    | Some latest \<Rightarrow> if transaction_dt > latest then Some transaction_dt else Some latest))
          else latest_loop L rest latest_transaction_time)"
| "latest_loop L (other # rest) latest_transaction_time = Inl AttributeError"

text \<open>\<open>timestamp_str.replace('Z', '+00:00')\<close>\<close>

definition replace_Z :: "pystr \<Rightarrow> pystr" where
  "replace_Z s = concat (map (\<lambda>c. if c = 90 then ascii ''+00:00'' else [c]) s)"

text \<open>
  The fall-back to the batch's own fetch timestamp when the batch has no transactions,
  lines 126 to 146. \<open>later\<close> is what \<open>get_vietnam_time()\<close> gives in the handler.
\<close>

definition fetch_timestamp_of_empty :: "pylib \<Rightarrow> datetime \<Rightarrow> pydict \<Rightarrow> datetime option" where
  "fetch_timestamp_of_empty L later data =
     (let timestamp_str = dget data (ascii ''timestamp'') JNull
      in if truthy timestamp_str
         then
           (case timestamp_str of
              JStr s \<Rightarrow>
                if py_in (ascii ''+'') s \<or> py_in (ascii ''Z'') s
                then
                  (case fromisoformat L (replace_Z s) of
                     None \<Rightarrow> Some later
                   | Some (timestamp_dt, None) \<Rightarrow> Some timestamp_dt
                   | Some (timestamp_dt, Some utcoffset) \<Rightarrow> Some (timestamp_dt - utcoffset + hours 7))
                else
                  (case strptime L YMD_HMS s of
                     None \<Rightarrow> Some later
                   | Some timestamp_dt \<Rightarrow> Some timestamp_dt)
            | other \<Rightarrow> Some later)
         else None)"

text \<open>
  The fall-back when the batch has transactions but none with a date that parses,
  lines 187 to 195.
\<close>

definition fetch_timestamp_fallback :: "pylib \<Rightarrow> datetime \<Rightarrow> pydict \<Rightarrow> datetime option" where
  "fetch_timestamp_fallback L later data =
     (let timestamp_str = dget data (ascii ''timestamp'') JNull
      in if truthy timestamp_str
         then
           (case timestamp_str of
              JStr s \<Rightarrow>
                (case strptime L YMD_HMS s of
                   None \<Rightarrow> Some later
                 | Some timestamp_dt \<Rightarrow> Some timestamp_dt)
            | other \<Rightarrow> Some later)
         else None)"

text \<open>
  \<open>get_last_fetch_time_from_json\<close>. Any exception that reaches the outer handler
  makes it return \<open>None\<close>.
\<close>

definition get_last_fetch_time_from_json :: "pylib \<Rightarrow> datetime \<Rightarrow> datafile list \<Rightarrow> datetime option" where
  "get_last_fetch_time_from_json L later transaction_files =
     (case newest_file transaction_files of
        None \<Rightarrow> None
      | Some newest \<Rightarrow>
          (case content newest of
             Some (JDict data) \<Rightarrow>
               (let transactions = dget data (ascii ''transactions'') (JList [])
                in if \<not> truthy transactions then fetch_timestamp_of_empty L later data
                   else
                     (case py_iter transactions of
                        Inl e \<Rightarrow> None
                      | Inr items \<Rightarrow>
                          (case latest_loop L items None of
                             Inl e \<Rightarrow> None
                           | Inr (Some latest_transaction_time) \<Rightarrow> Some latest_transaction_time
                           | Inr None \<Rightarrow> fetch_timestamp_fallback L later data)))
           | other \<Rightarrow> None))"

text \<open>
  \<open>get_from_date_for_fetch\<close>: the watermark handed to the fetcher, a string of the
  format \<^verbatim>\<open>%d/%m/%Y %H:%M\<close>.
\<close>

definition get_from_date_for_fetch :: "pylib \<Rightarrow> datetime \<Rightarrow> datetime \<Rightarrow> datafile list \<Rightarrow> pystr" where
  "get_from_date_for_fetch L current_time later transaction_files =
     (case get_last_fetch_time_from_json L later transaction_files of
        Some last_transaction_time \<Rightarrow> strftime L DMY_HM (last_transaction_time - minutes 2)
      | None \<Rightarrow> strftime L DMY_HM (start_of_day current_time))"


section \<open>A library to evaluate with\<close>

text \<open>
  An instance of the library parameters, for evaluating the model on concrete inputs. It
  reads and writes the fixed-width renderings (zero-padded fields) that the program itself
  produces, with the proleptic Gregorian calendar counted in days from 1970-01-01, and
  agrees with Python on those; any other string is refused. Its \<open>json_dump\<close> does not
  render the value: it writes three chunks that stand for the text.
\<close>

definition number :: "pystr \<Rightarrow> int option" where
  "number s =
     (if s \<noteq> [] \<and> list_all (\<lambda>c. 48 \<le> c \<and> c \<le> 57) s
      then Some (foldl (\<lambda>a c. 10 * a + (int c - 48)) 0 s) else None)"

definition sub :: "pystr \<Rightarrow> nat \<Rightarrow> nat \<Rightarrow> pystr" where
  "sub s i n = take n (drop i s)"

definition is_leap :: "int \<Rightarrow> bool" where
  "is_leap y \<longleftrightarrow> (y mod 4 = 0 \<and> y mod 100 \<noteq> 0) \<or> y mod 400 = 0"

definition days_in_month :: "int \<Rightarrow> int \<Rightarrow> int" where
  "days_in_month y m =
     (if m = 2 then (if is_leap y then 29 else 28)
      else if m = 4 \<or> m = 6 \<or> m = 9 \<or> m = 11 then 30 else 31)"

definition days_from_civil :: "int \<Rightarrow> int \<Rightarrow> int \<Rightarrow> int" where
  "days_from_civil y m d =
     (let y' = (if m \<le> 2 then y - 1 else y);
          era = y' div 400;
          yoe = y' - era * 400;
          doy = (153 * (if m > 2 then m - 3 else m + 9) + 2) div 5 + d - 1;
          doe = yoe * 365 + yoe div 4 - yoe div 100 + doy
      in era * 146097 + doe - 719468)"

definition month_of :: "int \<Rightarrow> int" where
  "month_of mp = (if mp < 10 then mp + 3 else mp - 9)"

definition civil_of_mp :: "int \<Rightarrow> int \<Rightarrow> int \<Rightarrow> int \<Rightarrow> int \<times> int \<times> int" where
  "civil_of_mp era yoe doy mp =
     (yoe + era * 400 + (if month_of mp \<le> 2 then 1 else 0), month_of mp, doy - (153 * mp + 2) div 5 + 1)"

definition civil_of_doy :: "int \<Rightarrow> int \<Rightarrow> int \<Rightarrow> int \<times> int \<times> int" where
  "civil_of_doy era yoe doy = civil_of_mp era yoe doy ((5 * doy + 2) div 153)"

definition civil_of_yoe :: "int \<Rightarrow> int \<Rightarrow> int \<Rightarrow> int \<times> int \<times> int" where
  "civil_of_yoe era doe yoe = civil_of_doy era yoe (doe - (365 * yoe + yoe div 4 - yoe div 100))"

definition civil_of_doe :: "int \<Rightarrow> int \<Rightarrow> int \<times> int \<times> int" where
  "civil_of_doe era doe =
     civil_of_yoe era doe ((doe - doe div 1460 + doe div 36524 - doe div 146096) div 365)"

definition civil_from_days :: "int \<Rightarrow> int \<times> int \<times> int" where
  "civil_from_days z = civil_of_doe ((z + 719468) div 146097) ((z + 719468) mod 146097)"

definition civil ::
  "int option \<Rightarrow> int option \<Rightarrow> int option \<Rightarrow> int option \<Rightarrow> int option \<Rightarrow> int option \<Rightarrow>
   datetime option" where
  "civil year month day hour minute second =
     (case (year, month, day, hour, minute, second) of
        (Some y, Some m, Some d, Some h, Some mi, Some s) \<Rightarrow>
          if 1 \<le> y \<and> y \<le> 9999 \<and> 1 \<le> m \<and> m \<le> 12 \<and> 1 \<le> d \<and> d \<le> days_in_month y m \<and>
             h < 24 \<and> mi < 60 \<and> s < 60
          then Some (seconds (((days_from_civil y m d * 24 + h) * 60 + mi) * 60 + s))
          else None
      | _ \<Rightarrow> None)"

definition seps :: "pystr \<Rightarrow> (nat \<times> nat) list \<Rightarrow> bool" where
  "seps s at = list_all (\<lambda>(i, c). s ! i = c) at"

definition ref_strptime :: "fmt \<Rightarrow> pystr \<Rightarrow> datetime option" where
  "ref_strptime f s =
     (case f of
        DMY_HMS \<Rightarrow>
          if length s = 19 \<and> seps s [(2, 47), (5, 47), (10, 32), (13, 58), (16, 58)]
          then civil (number (sub s 6 4)) (number (sub s 3 2)) (number (sub s 0 2))
                 (number (sub s 11 2)) (number (sub s 14 2)) (number (sub s 17 2))
          else None
      | DMY_HM \<Rightarrow>
          if length s = 16 \<and> seps s [(2, 47), (5, 47), (10, 32), (13, 58)]
          then civil (number (sub s 6 4)) (number (sub s 3 2)) (number (sub s 0 2))
                 (number (sub s 11 2)) (number (sub s 14 2)) (Some 0)
          else None
      | DMY \<Rightarrow>
          if length s = 10 \<and> seps s [(2, 47), (5, 47)]
          then civil (number (sub s 6 4)) (number (sub s 3 2)) (number (sub s 0 2))
                 (Some 0) (Some 0) (Some 0)
          else None
      | YMD_HMS \<Rightarrow>
          if length s = 19 \<and> seps s [(4, 45), (7, 45), (10, 32), (13, 58), (16, 58)]
          then civil (number (sub s 0 4)) (number (sub s 5 2)) (number (sub s 8 2))
                 (number (sub s 11 2)) (number (sub s 14 2)) (number (sub s 17 2))
          else None
      | _ \<Rightarrow> None)"

definition pad2 :: "int \<Rightarrow> pystr" where
  "pad2 n = [nat (48 + n div 10 mod 10), nat (48 + n mod 10)]"

definition pad4 :: "int \<Rightarrow> pystr" where
  "pad4 n = pad2 (n div 100) @ pad2 (n mod 100)"

definition render :: "fmt \<Rightarrow> int \<times> int \<times> int \<Rightarrow> int \<Rightarrow> pystr" where
  "render f ymd r =
     (case ymd of
        (y, m, d) \<Rightarrow>
          (case f of
             DMY_HMS \<Rightarrow>
               pad2 d @ [47] @ pad2 m @ [47] @ pad4 y @ [32] @
               pad2 (r div 3600) @ [58] @ pad2 (r mod 3600 div 60) @ [58] @ pad2 (r mod 60)
           | DMY_HM \<Rightarrow>
               pad2 d @ [47] @ pad2 m @ [47] @ pad4 y @ [32] @
               pad2 (r div 3600) @ [58] @ pad2 (r mod 3600 div 60)
           | DMY \<Rightarrow> pad2 d @ [47] @ pad2 m @ [47] @ pad4 y
           | YMD_HMS \<Rightarrow>
               pad4 y @ [45] @ pad2 m @ [45] @ pad2 d @ [32] @
               pad2 (r div 3600) @ [58] @ pad2 (r mod 3600 div 60) @ [58] @ pad2 (r mod 60)
           | DMY_DASH \<Rightarrow>
               pad2 d @ [45] @ pad2 m @ [45] @ pad4 y @ [32] @
               pad2 (r div 3600) @ [58] @ pad2 (r mod 3600 div 60) @ [58] @ pad2 (r mod 60)
           | STAMP \<Rightarrow>
               pad4 y @ pad2 m @ pad2 d @ [95] @
               pad2 (r div 3600) @ pad2 (r mod 3600 div 60) @ pad2 (r mod 60)))"

definition ref_strftime :: "fmt \<Rightarrow> datetime \<Rightarrow> pystr" where
  "ref_strftime f t = render f (civil_from_days (t div hours 24)) (t mod hours 24 div seconds 1)"


definition ref_fromisoformat :: "pystr \<Rightarrow> (datetime \<times> int option) option" where
  "ref_fromisoformat s =
     (if length s = 25 \<and> (s ! 19 = 43 \<or> s ! 19 = 45) \<and> s ! 22 = 58
      then
        (case (ref_strptime YMD_HMS (take 19 s), number (sub s 20 2), number (sub s 23 2)) of
           (Some t, Some h, Some mi) \<Rightarrow>
             if h < 24 \<and> mi < 60
             then Some (t, Some ((if s ! 19 = 45 then - 1 else 1) * (hours h + minutes mi)))
             else None
         | _ \<Rightarrow> None)
      else if length s = 19
      then (case ref_strptime YMD_HMS s of Some t \<Rightarrow> Some (t, None) | None \<Rightarrow> None)
      else None)"

definition ref_lib :: pylib where
  "ref_lib =
     \<lparr>strptime = ref_strptime, strftime = ref_strftime, fromisoformat = ref_fromisoformat,
      json_dump = (\<lambda>j. [ascii ''{'', ascii ''...'', ascii ''}''])\<rparr>"

text \<open>
  For the statements: items whose date can be read (a dict with a string, or nothing,
  under the date's header), and the transaction times of a list of such items.
\<close>

fun dated_item :: "json \<Rightarrow> bool" where
  "dated_item (JDict txn) = (case dget txn NGAY_GIAO_DICH (JStr []) of JStr s \<Rightarrow> True | _ \<Rightarrow> False)"
| "dated_item other = False"

definition transaction_time :: "pylib \<Rightarrow> json \<Rightarrow> datetime option" where
  "transaction_time L item =
     (case item of
        JDict txn \<Rightarrow>
          (case dget txn NGAY_GIAO_DICH (JStr []) of
             JStr s \<Rightarrow> if strip s \<noteq> [] then parse_transaction_time L (strip s) else None
           | _ \<Rightarrow> None)
      | _ \<Rightarrow> None)"

definition transaction_times :: "pylib \<Rightarrow> json list \<Rightarrow> datetime list" where
  "transaction_times L items = List.map_filter (transaction_time L) items"

definition later_of :: "datetime option \<Rightarrow> datetime list \<Rightarrow> datetime option" where
  "later_of latest ts =
     (case latest of
        None \<Rightarrow> if ts = [] then None else Some (Max (set ts))
      | Some t \<Rightarrow> Some (Max (set (t # ts))))"

text \<open>
  Two batches to evaluate the watermark on: a ``no transactions'' marker fetched at
  10:00:00 on 5 June 2025, and a batch of two transactions, the later one at 10:01:00.
\<close>

definition dated_txn :: "pystr \<Rightarrow> pystr \<Rightarrow> json" where
  "dated_txn i d = JDict [(SO_BUT_TOAN, JStr i), (NGAY_GIAO_DICH, JStr d)]"

definition data_E :: pydict where
  "data_E = [(ascii ''timestamp'', JStr (ascii ''2025-06-05 10:00:00'')),
             (ascii ''status'', JStr (ascii ''no_transactions'')),
             (ascii ''count'', JNum 0),
             (ascii ''transactions'', JList [])]"

definition items_F :: "json list" where
  "items_F = [dated_txn (ascii ''FT2'') (ascii ''05/06/2025 10:01:00''),
              dated_txn (ascii ''FT1'') (ascii ''05/06/2025 09:59:30'')]"

definition data_F :: pydict where
  "data_F = [(ascii ''timestamp'', JStr (ascii ''2025-06-05 10:01:20'')),
             (ascii ''transactions'', JList items_F)]"

definition batch_E :: datafile where
  "batch_E = \<lparr>fname = ascii ''e'', mtime = 5, content = Some (JDict data_E)\<rparr>"

definition batch_F :: datafile where
  "batch_F = \<lparr>fname = ascii ''f'', mtime = 6, content = Some (JDict data_F)\<rparr>"

section \<open>The scheduler's health check and recovery (\<open>run_scheduler\<close>, lines 771 to 848)\<close>

text \<open>
  The module-level variables the block reads and writes, with the clock: every
  \<open>time.sleep\<close> advances it, and nothing else does (a fake clock). Times are in seconds.
  \<open>webdriver_instance\<close> says whether a driver object is held.
\<close>

record scheduler =
  webdriver_instance :: bool
  recovery_in_progress :: bool
  last_health_check :: int
  session_start_time :: int
  clock :: int

text \<open>
  What the world answers during one run of the block: the session id
  \<open>check_session\<close> returns, whether \<open>driver.init_driver\<close> returns a driver, what
  \<open>log_in_v2\<close> does (it returns, or an exception leaves it: \<open>driver.get\<close> is outside
  its handlers) and what the push of the failure notification does. \<open>log_out\<close> and
  \<open>close_driver\<close> catch their own exceptions.
\<close>

datatype login_reply = Logged bool | LoginRaised

record recovery_world =
  session_id :: "pystr option"
  init_driver_ok :: bool
  login_reply :: login_reply
  notify_reply :: reply

datatype sched_event =
    CheckSession
  | Sleep int
  | LogOut
  | CloseDriver
  | InitializeDriver
  | LogIn
  | Notify
  | DockerComposeDown

text \<open>
  How the block is left: the loop goes on, or \<open>sys.exit\<close> raised \<open>SystemExit\<close>. No
  handler on the way out catches it (they all are \<open>except Exception\<close>), so the
  process ends with that status.
\<close>

datatype flow = Running scheduler | SystemExit int scheduler

fun slept :: "sched_event list \<Rightarrow> int" where
  "slept [] = 0"
| "slept (Sleep n # evs) = n + slept evs"
| "slept (e # evs) = slept evs"

text \<open>\<open>shutdown_environment(force_docker_shutdown)\<close>\<close>

definition shutdown_environment :: "bool \<Rightarrow> scheduler \<Rightarrow> sched_event list \<times> scheduler" where
  "shutdown_environment force_docker_shutdown st =
     ((if webdriver_instance st then [LogOut, CloseDriver] else []) @
      (if force_docker_shutdown then [DockerComposeDown] else []),
      st\<lparr>webdriver_instance := False\<rparr>)"

text \<open>
  The \<open>finally\<close> clause of the recovery: the flag is reset and the loop sleeps ten
  seconds more, also when \<open>SystemExit\<close> is on its way out.
\<close>

definition finally_clause :: "scheduler \<Rightarrow> sched_event list \<Rightarrow> (scheduler \<Rightarrow> flow) \<Rightarrow> scheduler \<Rightarrow> sched_event list \<times> flow" where
  "finally_clause st evs leave st' =
     (evs @ [Sleep 10],
      leave (st'\<lparr>recovery_in_progress := False, clock := clock st + slept (evs @ [Sleep 10])\<rparr>))"

text \<open>
  The recovery, entered with the flag set: the three minutes of sleep, the old driver
  closed, a new one made, one call of \<open>log_in_v2\<close>.
\<close>

definition recover :: "recovery_world \<Rightarrow> scheduler \<Rightarrow> sched_event list \<times> flow" where
  "recover w st =
     (let cleaned =
            [Sleep 60, Sleep 60, Sleep 60] @
            (if webdriver_instance st then [LogOut, Sleep 2, CloseDriver] else []) @
            [Sleep 5, InitializeDriver];
          closed = st\<lparr>webdriver_instance := False\<rparr>;
          fresh = st\<lparr>webdriver_instance := True\<rparr>
      in if \<not> init_driver_ok w then finally_clause st cleaned (SystemExit 1) closed
         else
           (case login_reply w of
              Logged True \<Rightarrow>
                finally_clause st (cleaned @ [LogIn]) Running
                  (fresh\<lparr>session_start_time := clock st + slept cleaned\<rparr>)
            | Logged False \<Rightarrow>
                finally_clause st
                  (cleaned @ [LogIn, Notify] @ fst (shutdown_environment True fresh))
                  (SystemExit 1) (snd (shutdown_environment True fresh))
            | LoginRaised \<Rightarrow>
                finally_clause st
                  (cleaned @ [LogIn] @ fst (shutdown_environment True fresh))
                  (SystemExit 1) (snd (shutdown_environment True fresh))))"

text \<open>\<open>if not session_id\<close>\<close>

definition session_dead :: "recovery_world \<Rightarrow> bool" where
  "session_dead w = (case session_id w of None \<Rightarrow> True | Some s \<Rightarrow> s = [])"

text \<open>The block, run at \<open>current_time\<close> (read at the top of the iteration).\<close>

definition health_check_block :: "recovery_world \<Rightarrow> int \<Rightarrow> scheduler \<Rightarrow> sched_event list \<times> flow" where
  "health_check_block w current_time st =
     (if current_time - last_health_check st \<ge> 10 \<and> \<not> recovery_in_progress st
      then
        (let checked = st\<lparr>last_health_check := current_time\<rparr>
         in if session_dead w
            then
              (case recover w (checked\<lparr>recovery_in_progress := True\<rparr>) of
                 (evs, leave) \<Rightarrow> (CheckSession # evs, leave))
            else ([CheckSession], Running checked))
      else ([], Running st))"

text \<open>For the statements.\<close>

definition slept_before :: "sched_event \<Rightarrow> sched_event list \<Rightarrow> int" where
  "slept_before e evs = slept (takeWhile (\<lambda>x. x \<noteq> e) evs)"

definition exit_status :: "flow \<Rightarrow> int option" where
  "exit_status f = (case f of Running st \<Rightarrow> None | SystemExit n st \<Rightarrow> Some n)"

definition state_of :: "flow \<Rightarrow> scheduler" where
  "state_of f = (case f of Running st \<Rightarrow> st | SystemExit n st \<Rightarrow> st)"

text \<open>
  A running scheduler, and three worlds in which the session is reported dead: one where
  the recovery login is refused, one where \<open>log_in_v2\<close> raises, one where no new driver
  can be made.
\<close>

definition running_scheduler :: scheduler where
  "running_scheduler =
     \<lparr>webdriver_instance = True, recovery_in_progress = False, last_health_check = 100,
      session_start_time = 0, clock = 110\<rparr>"

definition login_refused :: recovery_world where
  "login_refused =
     \<lparr>session_id = None, init_driver_ok = True, login_reply = Logged False, notify_reply = lark_ok\<rparr>"

definition login_raises :: recovery_world where
  "login_raises =
     \<lparr>session_id = None, init_driver_ok = True, login_reply = LoginRaised, notify_reply = lark_ok\<rparr>"

definition no_driver :: recovery_world where
  "no_driver =
     \<lparr>session_id = None, init_driver_ok = False, login_reply = Logged True, notify_reply = lark_ok\<rparr>"

section \<open>Properties\<close>

subsection \<open>Deduplication\<close>

lemma get_strip_readable:
  "readable_item (JDict txn) \<Longrightarrow> get_strip txn SO_BUT_TOAN = Inr (txn_id txn)"
  by (simp add: get_strip_def txn_id_def split: json.splits)

lemma collect_ids_readable:
  "list_all readable_item items \<Longrightarrow>
   collect_ids items acc = acc @ filter (\<lambda>i. i \<noteq> []) (map txn_id (dicts_of items))"
proof (induction items arbitrary: acc)
  case Nil
  then show ?case by simp
next
  case (Cons x items)
  then show ?case
    by (cases x) (simp_all add: get_strip_readable)
qed

lemma old_ids_of_file_readable:
  "readable_batch f \<Longrightarrow> old_ids_of_file f acc = acc @ nonempty_ids f"
  by (auto simp: readable_batch_def batch_items_def old_ids_of_file_def nonempty_ids_def
      batch_transactions_def collect_ids_readable split: option.splits json.splits)

lemma old_ids_loop_readable:
  "\<forall>f \<in> set fs. readable_batch f \<Longrightarrow>
   old_ids_loop fs acc = acc @ concat (map nonempty_ids fs)"
  by (induction fs arbitrary: acc) (simp_all add: old_ids_of_file_readable)

lemma unique_loop_readable:
  "list_all readable_item items \<Longrightarrow>
   unique_loop old items acc =
     Inr (acc @ filter (\<lambda>t. txn_id t \<noteq> [] \<and> txn_id t \<notin> set old) (dicts_of items))"
proof (induction items arbitrary: acc)
  case Nil
  then show ?case by simp
next
  case (Cons x items)
  then show ?case
    by (cases x) (simp_all add: get_strip_readable)
qed

lemma unique_transactions_of_readable:
  assumes "newest_file files = Some newest" and "readable_batch newest"
  shows "unique_transactions_of files =
     Inr (filter (\<lambda>t. txn_id t \<noteq> [] \<and>
            txn_id t \<notin> set (old_ids_loop (filter (\<lambda>f. fname f \<noteq> fname newest) files) []))
          (batch_transactions newest))"
  using assms
  by (auto simp: unique_transactions_of_def readable_batch_def batch_items_def
      batch_transactions_def unique_loop_readable Let_def split: option.splits json.splits)

lemma max_by_mtime_mem: "max_by_mtime best fs \<in> insert best (set fs)"
  by (induction fs arbitrary: best) auto

lemma newest_file_mem: "newest_file files = Some newest \<Longrightarrow> newest \<in> set files"
  using max_by_mtime_mem by (fastforce simp: newest_file_def split: list.splits)

lemma old_files_set:
  assumes "distinct (map fname files)" and "newest \<in> set files"
  shows "set (filter (\<lambda>f. fname f \<noteq> fname newest) files) = set files - {newest}"
proof -
  have "inj_on fname (set files)"
    using assms(1) by (simp add: distinct_map)
  then have "\<And>f. f \<in> set files \<Longrightarrow> (fname f = fname newest) = (f = newest)"
    using assms(2) by (auto dest: inj_onD)
  then show ?thesis by auto
qed

lemma old_ids_set:
  assumes "distinct (map fname files)" and "newest_file files = Some newest"
    and "\<forall>f \<in> set files. readable_batch f"
  shows "set (old_ids_loop (filter (\<lambda>f. fname f \<noteq> fname newest) files) []) =
         (\<Union>f \<in> set files - {newest}. txn_id ` set (batch_transactions f)) - {[]}"
proof -
  let ?olds = "filter (\<lambda>f. fname f \<noteq> fname newest) files"
  have "\<forall>f \<in> set ?olds. readable_batch f"
    using assms(3) by simp
  then have "old_ids_loop ?olds [] = concat (map nonempty_ids ?olds)"
    by (simp add: old_ids_loop_readable)
  then have "set (old_ids_loop ?olds []) = (\<Union>f \<in> set ?olds. set (nonempty_ids f))"
    by simp
  also have "set ?olds = set files - {newest}"
    using assms(1) newest_file_mem [OF assms(2)] by (rule old_files_set)
  finally show ?thesis
    by (auto simp: nonempty_ids_def)
qed

lemma unique_transactions_of_spec:
  assumes "distinct (map fname files)" and "newest_file files = Some B2"
    and "\<forall>f \<in> set files. readable_batch f"
  shows "unique_transactions_of files =
           Inr (filter (\<lambda>t. txn_id t \<noteq> [] \<and>
                  txn_id t \<notin> (\<Union>B1 \<in> set files - {B2}. txn_id ` set (batch_transactions B1)))
                (batch_transactions B2))"
proof -
  have mem: "B2 \<in> set files"
    using assms(2) by (rule newest_file_mem)
  have old: "set (old_ids_loop (filter (\<lambda>f. fname f \<noteq> fname B2) files) []) =
         (\<Union>B1 \<in> set files - {B2}. txn_id ` set (batch_transactions B1)) - {[]}"
    using assms by (rule old_ids_set)
  have "unique_transactions_of files =
     Inr (filter (\<lambda>t. txn_id t \<noteq> [] \<and>
            txn_id t \<notin> set (old_ids_loop (filter (\<lambda>f. fname f \<noteq> fname B2) files) []))
          (batch_transactions B2))"
    using assms(2,3) mem by (simp add: unique_transactions_of_readable)
  also have "filter (\<lambda>t. txn_id t \<noteq> [] \<and>
            txn_id t \<notin> set (old_ids_loop (filter (\<lambda>f. fname f \<noteq> fname B2) files) []))
          (batch_transactions B2) =
        filter (\<lambda>t. txn_id t \<noteq> [] \<and>
                  txn_id t \<notin> (\<Union>B1 \<in> set files - {B2}. txn_id ` set (batch_transactions B1)))
                (batch_transactions B2)"
    unfolding old by (rule filter_cong) auto
  finally show ?thesis .
qed

text \<open>
  C1. When the batches can be read, the new transactions found are exactly the
  transactions of the newest batch B2, in their order, whose stripped identifier is not
  empty and is not the identifier of a transaction of an older batch; and the identifiers
  collected from the older batches are those of their transactions, the empty one left
  out.
\<close>

theorem find_new_transactions_exact:
  assumes "distinct (map fname files)" and "newest_file files = Some B2"
    and "\<forall>f \<in> set files. readable_batch f"
  shows "unique_transactions_of files =
           Inr (filter (\<lambda>t. txn_id t \<noteq> [] \<and>
                  txn_id t \<notin> (\<Union>B1 \<in> set files - {B2}. txn_id ` set (batch_transactions B1)))
                (batch_transactions B2)) \<and>
         set (old_ids_loop (filter (\<lambda>f. fname f \<noteq> fname B2) files) []) =
           (\<Union>B1 \<in> set files - {B2}. txn_id ` set (batch_transactions B1)) - {[]}"
  using unique_transactions_of_spec [OF assms] old_ids_set [OF assms] by simp

lemmas batch_eval = mk_txn_def mk_batch_def newest_file_def readable_batch_def batch_items_def
  transactions_of_def dget_def ascii_def SO_BUT_TOAN_def batch_transactions_def txn_id_def
  strip_def isspace_def

lemma batch_A_B_files:
  "distinct (map fname [batch_A, batch_B])"
  "newest_file [batch_A, batch_B] = Some batch_B"
  "\<forall>f \<in> set [batch_A, batch_B]. readable_batch f"
  "set [batch_A, batch_B] - {batch_B} = {batch_A}"
  by (auto simp: batch_A_def batch_B_def batch_eval)

lemma batch_A_B_transactions:
  "txn_id ` set (batch_transactions batch_A) = {ascii ''FT1'', []}"
  "batch_transactions batch_B =
     [mk_txn (ascii ''FT1 ''), mk_txn (ascii ''FT2''), mk_txn (ascii '' '')]"
  "txn_id (mk_txn (ascii ''FT1 '')) = ascii ''FT1''"
  "txn_id (mk_txn (ascii ''FT2'')) = ascii ''FT2''"
  "txn_id (mk_txn (ascii '' '')) = []"
  by (simp_all add: batch_A_def batch_B_def batch_eval)

theorem find_new_transactions_exact_witness:
  "distinct (map fname [batch_A, batch_B]) \<and>
   newest_file [batch_A, batch_B] = Some batch_B \<and>
   readable_batch batch_A \<and> readable_batch batch_B \<and>
   unique_transactions_of [batch_A, batch_B] = Inr [mk_txn (ascii ''FT2'')]"
proof -
  have n: "ascii ''FT2'' \<noteq> ascii ''FT1''" "ascii ''FT1'' \<noteq> []" "ascii ''FT2'' \<noteq> []"
    by (simp_all add: ascii_def)
  from find_new_transactions_exact [OF batch_A_B_files(1,2,3)]
  have "unique_transactions_of [batch_A, batch_B] = Inr [mk_txn (ascii ''FT2'')]"
    unfolding batch_A_B_files(4) by (simp add: batch_A_B_transactions n)
  with batch_A_B_files(1,2,3) show ?thesis
    by simp
qed

subsection \<open>Forwarding\<close>

lemma push_loop_returns:
  "\<forall>j < length txns. is_returns (lark (i + j)) \<Longrightarrow>
   push_loop lark i txns c sent w =
     (sent @ map lark_content txns,
      w @ map Suc (filter (\<lambda>k. \<not> reply_ok (lark k)) [i ..< i + length txns]),
      Inr (c + length (filter (\<lambda>k. reply_ok (lark k)) [i ..< i + length txns])))"
proof (induction txns arbitrary: i c sent w)
  case Nil
  then show ?case by simp
next
  case (Cons t txns)
  from Cons.prems have here: "is_returns (lark i)"
    by force
  from Cons.prems have "\<forall>j < length txns. is_returns (lark (Suc i + j))"
    by force
  note IH = Cons.IH [OF this]
  have "i < i + length (t # txns)"
    by simp
  from upt_conv_Cons [OF this]
  have upt: "[i ..< i + length (t # txns)] = i # [Suc i ..< Suc i + length txns]"
    by simp
  from here obtain result where r: "lark i = Returns result"
    by (auto simp: is_returns_def split: reply.splits)
  show ?case
    unfolding upt by (simp add: r IH reply_ok_def)
qed

lemma push_loop_prefix:
  "prefix (fst (push_loop lark i txns c sent w)) (sent @ map lark_content txns)"
proof (induction txns arbitrary: i c sent w)
  case Nil
  then show ?case by simp
next
  case (Cons t txns)
  show ?case
  proof (cases "lark i")
    case (Raises e)
    then show ?thesis by simp
  next
    case (Returns result)
    with Cons.IH [of "Suc i" _ "sent @ [lark_content t]"] show ?thesis
      by simp
  qed
qed


lemma push_transactions_returns:
  assumes "\<forall>j < length txns. is_returns (lark j)"
  shows "push_transactions_to_lark_v2 lark txns =
    \<lparr>pushed = map lark_content (rev txns),
     warned = map Suc (filter (\<lambda>j. \<not> reply_ok (lark j)) [0 ..< length txns]),
     outcome = Inr (txns = [] \<or> 0 < length (filter (\<lambda>j. reply_ok (lark j)) [0 ..< length txns])),
     reversed = rev txns\<rparr>"
proof (cases "txns = []")
  case True
  then show ?thesis by (simp add: push_transactions_to_lark_v2_def)
next
  case False
  from assms have "\<forall>j < length (rev txns). is_returns (lark (0 + j))"
    by simp
  from push_loop_returns [OF this, of 0 "[]" "[]"] False show ?thesis
    by (simp add: push_transactions_to_lark_v2_def)
qed

lemma lark_replies:
  "is_returns lark_ok" "is_returns lark_refused" "reply_ok lark_ok" "\<not> reply_ok lark_refused"
  "\<not> is_returns (Raises e)"
  by (simp_all add: is_returns_def reply_ok_def lark_ok_def lark_refused_def push_succeeded_def
      dget_def ascii_def)

lemma three_upt: "[0 ..< 3] = [0, 1, 2]"
  by (simp add: upt_rec)

text \<open>
  C7. The messages handed to the notification service are those of the input list in
  reverse order: always an initial part of that sequence, and the whole of it when every
  call of the service returns.
\<close>

theorem notifications_oldest_first:
  "prefix (pushed (push_transactions_to_lark_v2 lark txns)) (map lark_content (rev txns)) \<and>
   ((\<forall>j < length txns. is_returns (lark j)) \<longrightarrow>
      pushed (push_transactions_to_lark_v2 lark txns) = map lark_content (rev txns))"
proof -
  have "pushed (push_transactions_to_lark_v2 lark txns) =
        (if txns = [] then [] else fst (push_loop lark 0 (rev txns) 0 [] []))"
    by (simp add: push_transactions_to_lark_v2_def split: prod.splits sum.splits)
  moreover have "prefix (fst (push_loop lark 0 (rev txns) 0 [] [])) ([] @ map lark_content (rev txns))"
    by (rule push_loop_prefix)
  ultimately have "prefix (pushed (push_transactions_to_lark_v2 lark txns)) (map lark_content (rev txns))"
    by simp
  then show ?thesis
    by (simp add: push_transactions_returns)
qed

theorem notifications_oldest_first_witness:
  "is_returns (lark_second_refused 0) \<and> is_returns (lark_second_refused 1) \<and>
   is_returns (lark_second_refused 2) \<and>
   pushed (push_transactions_to_lark_v2 lark_second_refused three_txns) =
     [lark_content (mk_txn (ascii ''FT3'')), lark_content (mk_txn (ascii ''FT2'')),
      lark_content (mk_txn (ascii ''FT1''))]"
proof -
  have r: "\<forall>j < length three_txns. is_returns (lark_second_refused j)"
    by (simp add: lark_second_refused_def lark_replies)
  from notifications_oldest_first [of lark_second_refused three_txns] r
  have "pushed (push_transactions_to_lark_v2 lark_second_refused three_txns) =
        map lark_content (rev three_txns)"
    by blast
  then show ?thesis
    by (simp add: three_txns_def lark_second_refused_def lark_replies)
qed

text \<open>
  When every call of the notification service returns, and the list is not empty, the
  function returns \<open>True\<close> exactly when at least one push succeeded, and the pushes
  that failed are reported one by one (the warnings).
\<close>

lemma forward_success_iff:
  assumes "txns \<noteq> []" and "\<forall>j < length txns. is_returns (lark j)"
  shows "outcome (push_transactions_to_lark_v2 lark txns) =
           Inr (\<exists>j < length txns. reply_ok (lark j)) \<and>
         warned (push_transactions_to_lark_v2 lark txns) =
           map Suc (filter (\<lambda>j. \<not> reply_ok (lark j)) [0 ..< length txns])"
proof -
  have "(0 < length (filter (\<lambda>j. reply_ok (lark j)) [0 ..< length txns])) =
        (\<exists>j < length txns. reply_ok (lark j))"
    by (auto simp: filter_empty_conv)
  with assms show ?thesis
    by (simp add: push_transactions_returns)
qed


lemma forward_success_iff_example:
  "three_txns \<noteq> [] \<and>
   is_returns (lark_second_refused 0) \<and> is_returns (lark_second_refused 1) \<and>
   is_returns (lark_second_refused 2) \<and>
   outcome (push_transactions_to_lark_v2 lark_second_refused three_txns) = Inr True \<and>
   warned (push_transactions_to_lark_v2 lark_second_refused three_txns) = [2]"
proof -
  have n: "three_txns \<noteq> []" and l: "length three_txns = 3"
    by (simp_all add: three_txns_def)
  have r: "\<forall>j < length three_txns. is_returns (lark_second_refused j)"
    by (simp add: lark_second_refused_def lark_replies)
  have ok: "reply_ok (lark_second_refused 0)" "\<not> reply_ok (lark_second_refused (Suc 0))"
    "reply_ok (lark_second_refused 2)"
    by (simp_all add: lark_second_refused_def lark_replies)
  then have ex: "\<exists>j < length three_txns. reply_ok (lark_second_refused j)"
    unfolding l by (intro exI [of _ 0]) simp
  have ret: "is_returns (lark_second_refused 0)" "is_returns (lark_second_refused 1)"
    "is_returns (lark_second_refused 2)"
    by (simp_all add: lark_second_refused_def lark_replies)
  from forward_success_iff [OF n r] ex
  have "outcome (push_transactions_to_lark_v2 lark_second_refused three_txns) = Inr True"
    and "warned (push_transactions_to_lark_v2 lark_second_refused three_txns) = [2]"
    by (simp_all add: l three_upt ok)
  with n ret show ?thesis
    by simp
qed

text \<open>
  C6. Three new transactions, and a notification service that raises on the second call:
  the third message is never handed over, the exception leaves
  \<open>push_transactions_to_lark_v2\<close>, and \<open>find_unique_transactions_v2\<close> returns
  \<open>False\<close> without order processing and without pruning.
\<close>

theorem push_raise_skips_remaining:
  "pushed (push_transactions_to_lark_v2 lark_second_raises three_txns) =
     [lark_content (mk_txn (ascii ''FT3'')), lark_content (mk_txn (ascii ''FT2''))] \<and>
   outcome (push_transactions_to_lark_v2 lark_second_raises three_txns) = Inl RequestError \<and>
   find_unique_transactions_v2 no_woo lark_second_raises woo [batch_C] =
     \<lparr>returned = False,
      notifications = [lark_content (mk_txn (ascii ''FT3'')), lark_content (mk_txn (ascii ''FT2''))],
      orders = [], files_left = [batch_C]\<rparr>"
proof -
  have run: "push_transactions_to_lark_v2 lark_second_raises three_txns =
    \<lparr>pushed = [lark_content (mk_txn (ascii ''FT3'')), lark_content (mk_txn (ascii ''FT2''))],
     warned = [], outcome = Inl RequestError, reversed = rev three_txns\<rparr>"
    by (simp add: push_transactions_to_lark_v2_def three_txns_def lark_second_raises_def
        lark_ok_def push_succeeded_def dget_def ascii_def)
  have u: "unique_transactions_of [batch_C] = Inr three_txns"
    by (simp add: unique_transactions_of_def batch_C_def three_txns_def get_strip_def batch_eval)
  have ne: "three_txns \<noteq> []"
    by (simp add: three_txns_def)
  show ?thesis
    by (simp add: find_unique_transactions_v2_def u run ne)
qed

lemma second_raises_run:
  "push_transactions_to_lark_v2 lark_second_raises three_txns =
    \<lparr>pushed = [lark_content (mk_txn (ascii ''FT3'')), lark_content (mk_txn (ascii ''FT2''))],
     warned = [], outcome = Inl RequestError, reversed = rev three_txns\<rparr>"
  by (simp add: push_transactions_to_lark_v2_def three_txns_def lark_second_raises_def
      lark_ok_def push_succeeded_def dget_def ascii_def)

lemma batch_C_unique: "unique_transactions_of [batch_C] = Inr three_txns"
  by (simp add: unique_transactions_of_def batch_C_def three_txns_def get_strip_def batch_eval)

text \<open>
  C8. Three new transactions and a notification service whose first call succeeds and
  whose second call raises. One notification succeeded, yet \<open>push_transactions_to_lark_v2\<close> has no
  result at all (the exception leaves it, and no warning reports the failed push), and
  \<open>find_unique_transactions_v2\<close> returns \<open>False\<close>: the failure of one push has become
  the failure of the whole forwarding.
\<close>

theorem push_raise_after_success_escalates:
  "three_txns \<noteq> [] \<and>
   reply_ok (lark_second_raises 0) \<and>
   \<not> is_returns (lark_second_raises 1) \<and>
   outcome (push_transactions_to_lark_v2 lark_second_raises three_txns) = Inl RequestError \<and>
   warned (push_transactions_to_lark_v2 lark_second_raises three_txns) = [] \<and>
   returned (find_unique_transactions_v2 no_woo lark_second_raises (\<lambda>i. lark_ok) [batch_C]) = False"
proof -
  have "three_txns \<noteq> []"
    by (simp add: three_txns_def)
  moreover have "reply_ok (lark_second_raises 0)" and "\<not> is_returns (lark_second_raises 1)"
    by (simp_all add: lark_second_raises_def lark_replies)
  moreover have "returned (find_unique_transactions_v2 no_woo lark_second_raises (\<lambda>i. lark_ok) [batch_C]) = False"
    using \<open>three_txns \<noteq> []\<close>
    by (simp add: find_unique_transactions_v2_def batch_C_unique second_raises_run)
  ultimately show ?thesis
    by (simp add: second_raises_run)
qed


text \<open>
  The order side of the forwarding is isolated: every transaction with a credit amount is
  handed to \<open>process_woo_transaction\<close>, whatever the calls before it returned or raised.
\<close>

lemma woo_loop_called:
  "woo_called (woo_loop woo i txns run) =
   woo_called run @ filter (\<lambda>txn. dget txn PHAT_SINH_CO (JStr (ascii ''0'')) \<noteq> JStr (ascii ''0'')) txns"
  by (induction txns arbitrary: i run) (auto simp: Let_def split: reply.splits json.splits)

subsection \<open>First run, and duplicates inside the newest batch\<close>

lemma first_run_unique:
  assumes "readable_batch B"
  shows "unique_transactions_of [B] = Inr (filter (\<lambda>t. txn_id t \<noteq> []) (batch_transactions B))"
proof -
  have "newest_file [B] = Some B"
    by (simp add: newest_file_def)
  from unique_transactions_of_readable [OF this assms] show ?thesis
    by simp
qed

text \<open>
  C5 (as amended). With the newest batch as the only file, and its identifiers readable,
  the new transactions are the transactions of that batch that have an identifier which is
  not empty once stripped, unchanged and in the batch's order: all of the batch when every
  transaction has one.
\<close>

theorem first_run_returns_identified:
  "readable_batch B \<Longrightarrow>
   unique_transactions_of [B] = Inr (filter (\<lambda>t. txn_id t \<noteq> []) (batch_transactions B))"
  by (rule first_run_unique)

theorem first_run_returns_identified_witness:
  "readable_batch batch_C \<and> unique_transactions_of [batch_C] = Inr three_txns"
proof -
  have r: "readable_batch batch_C"
    by (simp add: batch_C_def three_txns_def batch_eval)
  have "filter (\<lambda>t. txn_id t \<noteq> []) (batch_transactions batch_C) = three_txns"
    by (simp add: batch_C_def three_txns_def batch_eval)
  with first_run_returns_identified [OF r] r show ?thesis
    by simp
qed

text \<open>
  C5 as stated fails: \<open>batch_A\<close> alone holds two transactions, one with an empty
  identifier, and only the other one is found new.
\<close>

theorem first_run_drops_empty_identifier:
  "batch_transactions batch_A = [mk_txn (ascii ''FT1''), mk_txn []] \<and>
   unique_transactions_of [batch_A] = Inr [mk_txn (ascii ''FT1'')]"
  by (simp add: unique_transactions_of_def batch_A_def get_strip_def batch_eval)

lemma find_notifications_returns:
  assumes "unique_transactions_of files = Inr u"
    and "\<forall>j < length u. is_returns (lark j)"
  shows "notifications (find_unique_transactions_v2 env lark woo files) = map lark_content (rev u)"
  using assms
  by (simp add: find_unique_transactions_v2_def push_transactions_returns Let_def split: bool.splits)

text \<open>
  C10. Identifiers are compared with those of the older batches only. For an identifier
  \<open>i\<close> that is not empty and occurs in no older batch, the new transactions found
  contain every transaction of the newest batch that carries \<open>i\<close>, as often as the
  batch does; and when the calls of the notification service return, one message is pushed
  for each new transaction found.
\<close>

theorem duplicates_in_newest_all_forwarded:
  assumes "distinct (map fname files)" and "newest_file files = Some B2"
    and "\<forall>f \<in> set files. readable_batch f"
    and "i \<noteq> []"
    and "i \<notin> (\<Union>B1 \<in> set files - {B2}. txn_id ` set (batch_transactions B1))"
    and "\<forall>j. is_returns (lark j)"
  shows "\<exists>u. unique_transactions_of files = Inr u \<and>
           filter (\<lambda>t. txn_id t = i) u = filter (\<lambda>t. txn_id t = i) (batch_transactions B2) \<and>
           notifications (find_unique_transactions_v2 env lark woo files) = map lark_content (rev u)"
proof -
  let ?S = "\<Union>B1 \<in> set files - {B2}. txn_id ` set (batch_transactions B1)"
  let ?u = "filter (\<lambda>t. txn_id t \<noteq> [] \<and> txn_id t \<notin> ?S) (batch_transactions B2)"
  have u: "unique_transactions_of files = Inr ?u"
    using assms(1,2,3) by (rule unique_transactions_of_spec)
  have "filter (\<lambda>t. txn_id t = i) ?u = filter (\<lambda>t. txn_id t = i) (batch_transactions B2)"
    unfolding filter_filter using assms(4,5) by (intro filter_cong) auto
  moreover have "notifications (find_unique_transactions_v2 env lark woo files) =
      map lark_content (rev ?u)"
    using u assms(6) by (simp add: find_notifications_returns)
  ultimately show ?thesis
    using u by blast
qed


lemma batch_A_D_files:
  "distinct (map fname [batch_A, batch_D])"
  "newest_file [batch_A, batch_D] = Some batch_D"
  "\<forall>f \<in> set [batch_A, batch_D]. readable_batch f"
  "set [batch_A, batch_D] - {batch_D} = {batch_A}"
  by (auto simp: batch_A_def batch_D_def batch_eval)

lemma batch_A_D_unique:
  "unique_transactions_of [batch_A, batch_D] = Inr [mk_txn (ascii ''FT9''), mk_txn (ascii ''FT9 '')]"
  by (simp add: unique_transactions_of_def batch_A_def batch_D_def get_strip_def old_ids_of_file_def
      batch_eval)

theorem duplicates_in_newest_all_forwarded_witness:
  "distinct (map fname [batch_A, batch_D]) \<and> newest_file [batch_A, batch_D] = Some batch_D \<and>
   readable_batch batch_A \<and> readable_batch batch_D \<and> ascii ''FT9'' \<noteq> [] \<and>
   is_returns lark_ok \<and>
   unique_transactions_of [batch_A, batch_D] = Inr [mk_txn (ascii ''FT9''), mk_txn (ascii ''FT9 '')] \<and>
   notifications (find_unique_transactions_v2 no_woo (\<lambda>j. lark_ok) (\<lambda>j. lark_ok) [batch_A, batch_D]) =
     [lark_content (mk_txn (ascii ''FT9 '')), lark_content (mk_txn (ascii ''FT9''))]"
proof -
  have i: "ascii ''FT9'' \<noteq> []"
    by (simp add: ascii_def)
  have old: "ascii ''FT9'' \<notin> (\<Union>B1 \<in> set [batch_A, batch_D] - {batch_D}. txn_id ` set (batch_transactions B1))"
    unfolding batch_A_D_files(4) by (simp add: batch_A_B_transactions(1)) (simp add: ascii_def)
  have r: "\<forall>j. is_returns ((\<lambda>j. lark_ok) j)"
    by (simp add: lark_replies)
  from duplicates_in_newest_all_forwarded [OF batch_A_D_files(1,2,3) i old r, of no_woo "\<lambda>j. lark_ok"]
  have "notifications (find_unique_transactions_v2 no_woo (\<lambda>j. lark_ok) (\<lambda>j. lark_ok) [batch_A, batch_D]) =
     [lark_content (mk_txn (ascii ''FT9 '')), lark_content (mk_txn (ascii ''FT9''))]"
    by (auto simp: batch_A_D_unique)
  with batch_A_D_files(1,2,3) i batch_A_D_unique lark_replies(1) show ?thesis
    by simp
qed


subsection \<open>Login\<close>

lemma login_attempt_transient:
  "submitted a \<Longrightarrow> transient a \<Longrightarrow> login_attempt m k a = (challenge a, Continue)"
  by (auto simp: login_attempt_def submitted_def transient_def refused_with_def challenge_def
      split: option.splits dialog.splits if_splits)

lemma login_attempt_succeeds:
  "submitted a \<Longrightarrow> succeeds a \<Longrightarrow> login_attempt m k a = (challenge a, Return True)"
  by (auto simp: login_attempt_def submitted_def succeeds_def challenge_def
      split: option.splits)

lemma login_attempt_terminal:
  "submitted a \<Longrightarrow> terminal a \<Longrightarrow> login_attempt m k a = (challenge a, Return False)"
  by (auto simp: login_attempt_def submitted_def terminal_def refused_with_def challenge_def
      split: option.splits dialog.splits if_splits)

lemma login_loop_continue:
  assumes "\<forall>k. a \<le> k \<and> k < n \<longrightarrow> login_attempt m k (browser k) = (evs k, Continue)"
    and "a \<le> n" and "int n \<le> m"
  shows "login_loop browser m a sofar = login_loop browser m n (sofar @ concat (map evs [a ..< n]))"
  using assms
proof (induction "n - a" arbitrary: a sofar)
  case 0
  then show ?case by simp
next
  case (Suc d)
  then have lt: "a < n" and here: "login_attempt m a (browser a) = (evs a, Continue)"
    by auto
  from Suc.prems lt have "int a < m"
    by linarith
  then have "login_loop browser m a sofar = login_loop browser m (Suc a) (sofar @ evs a)"
    by (subst login_loop.simps) (simp add: here)
  also have "\<dots> = login_loop browser m n ((sofar @ evs a) @ concat (map evs [Suc a ..< n]))"
    using Suc by (intro Suc.hyps(1)) auto
  finally show ?case
    using lt by (simp add: upt_conv_Cons)
qed


lemma log_in_v2_after_transients:
  assumes "\<forall>k < n. submitted (browser k) \<and> transient (browser k)"
    and "int n \<le> max_attempts_of env"
  shows "log_in_v2 env browser =
         login_loop browser (max_attempts_of env) n (concat (map (\<lambda>k. challenge (browser k)) [0 ..< n]))"
proof -
  have "\<forall>k. 0 \<le> k \<and> k < n \<longrightarrow>
      login_attempt (max_attempts_of env) k (browser k) = (challenge (browser k), Continue)"
    using assms(1) by (simp add: login_attempt_transient)
  from login_loop_continue [OF this _ assms(2), of "[]"] show ?thesis
    by (simp add: log_in_v2_def)
qed

text \<open>
  C3. Let the attempts before attempt \<open>n\<close> (counted from 0) each be submitted with
  the captcha read from its own image and answered by an error dialog naming GW715. Then
  each of them is retried. If attempt \<open>n\<close> is within \<open>max_attempts\<close> and succeeds,
  the login returns success after exactly \<open>n + 1\<close> attempts; if it is answered by an
  error dialog that does not name GW715 (GW18 or any other message), the login returns
  failure after exactly \<open>n + 1\<close> attempts, making no further one; and if \<open>n\<close> is
  \<open>max_attempts\<close>, all attempts are used up and the login returns failure. Every attempt
  navigates to the login page and solves the captcha image it finds there.
\<close>

theorem login_retry_policy:
  assumes "\<forall>k < n. submitted (browser k) \<and> transient (browser k)"
  shows "(int n < max_attempts_of env \<and> submitted (browser n) \<and> succeeds (browser n) \<longrightarrow>
            log_in_v2 env browser =
              \<lparr>logged_in = True, attempts = Suc n,
               events = concat (map (\<lambda>k. challenge (browser k)) [0 ..< Suc n])\<rparr>) \<and>
         (int n < max_attempts_of env \<and> submitted (browser n) \<and> terminal (browser n) \<longrightarrow>
            log_in_v2 env browser =
              \<lparr>logged_in = False, attempts = Suc n,
               events = concat (map (\<lambda>k. challenge (browser k)) [0 ..< Suc n])\<rparr>) \<and>
         (int n = max_attempts_of env \<longrightarrow>
            log_in_v2 env browser =
              \<lparr>logged_in = False, attempts = n,
               events = concat (map (\<lambda>k. challenge (browser k)) [0 ..< n])\<rparr>)"
proof (intro conjI impI)
  assume a: "int n < max_attempts_of env \<and> submitted (browser n) \<and> succeeds (browser n)"
  then have "int n \<le> max_attempts_of env"
    by simp
  from log_in_v2_after_transients [OF assms this] a
  show "log_in_v2 env browser =
      \<lparr>logged_in = True, attempts = Suc n,
       events = concat (map (\<lambda>k. challenge (browser k)) [0 ..< Suc n])\<rparr>"
    by (subst (asm) login_loop.simps) (simp add: login_attempt_succeeds)
next
  assume a: "int n < max_attempts_of env \<and> submitted (browser n) \<and> terminal (browser n)"
  then have "int n \<le> max_attempts_of env"
    by simp
  from log_in_v2_after_transients [OF assms this] a
  show "log_in_v2 env browser =
      \<lparr>logged_in = False, attempts = Suc n,
       events = concat (map (\<lambda>k. challenge (browser k)) [0 ..< Suc n])\<rparr>"
    by (subst (asm) login_loop.simps) (simp add: login_attempt_terminal)
next
  assume a: "int n = max_attempts_of env"
  then have "int n \<le> max_attempts_of env"
    by simp
  from log_in_v2_after_transients [OF assms this] a
  show "log_in_v2 env browser =
      \<lparr>logged_in = False, attempts = n,
       events = concat (map (\<lambda>k. challenge (browser k)) [0 ..< n])\<rparr>"
    by (subst (asm) login_loop.simps) simp
qed

lemma attempt_examples:
  "submitted attempt_gw715" "submitted attempt_ok" "submitted attempt_gw18"
  "transient attempt_gw715" "succeeds attempt_ok" "terminal attempt_gw18"
  by (simp_all add: submitted_def transient_def succeeds_def terminal_def refused_with_def
      attempt_gw715_def attempt_ok_def attempt_gw18_def success_indicators_def DANG_NHAP_def
      ascii_def strip_def isspace_def)

theorem login_retry_policy_witness:
  "submitted (twice_then_ok 0) \<and> transient (twice_then_ok 0) \<and>
   submitted (twice_then_ok 1) \<and> transient (twice_then_ok 1) \<and>
   submitted (twice_then_ok 2) \<and> succeeds (twice_then_ok 2) \<and>
   max_attempts_of None = 3 \<and>
   logged_in (log_in_v2 None twice_then_ok) \<and> attempts (log_in_v2 None twice_then_ok) = 3 \<and>
   submitted attempt_gw18 \<and> terminal attempt_gw18 \<and>
   \<not> logged_in (log_in_v2 None (\<lambda>k. attempt_gw18)) \<and> attempts (log_in_v2 None (\<lambda>k. attempt_gw18)) = 1"
proof -
  have t: "\<forall>k < 2. submitted (twice_then_ok k) \<and> transient (twice_then_ok k)"
    by (simp add: twice_then_ok_def attempt_examples)
  have s: "int 2 < max_attempts_of None \<and> submitted (twice_then_ok 2) \<and> succeeds (twice_then_ok 2)"
    by (simp add: twice_then_ok_def attempt_examples max_attempts_of_def)
  from login_retry_policy [OF t, of None] s
  have one: "logged_in (log_in_v2 None twice_then_ok) \<and> attempts (log_in_v2 None twice_then_ok) = 3"
    by simp
  have t0: "\<forall>k < (0::nat). submitted ((\<lambda>k. attempt_gw18) k) \<and> transient ((\<lambda>k. attempt_gw18) k)"
    by blast
  have s0: "int 0 < max_attempts_of None \<and> submitted attempt_gw18 \<and> terminal attempt_gw18"
    by (simp add: attempt_examples max_attempts_of_def)
  from login_retry_policy [OF t0, of None] s0
  have two: "\<not> logged_in (log_in_v2 None (\<lambda>k. attempt_gw18)) \<and>
      attempts (log_in_v2 None (\<lambda>k. attempt_gw18)) = 1"
    by simp
  have "twice_then_ok 0 = attempt_gw715" "twice_then_ok 1 = attempt_gw715" "twice_then_ok 2 = attempt_ok"
    by (simp_all add: twice_then_ok_def)
  with one two attempt_examples show ?thesis
    by (simp add: max_attempts_of_def)
qed


subsection \<open>Persisting a batch\<close>

lemma foldl_untouched:
  "\<forall>op \<in> set ops. \<not> touches p op \<Longrightarrow> foldl apply_op fs ops p = fs p"
proof (induction ops arbitrary: fs)
  case Nil
  then show ?case by simp
next
  case (Cons op ops)
  then have "apply_op fs op p = fs p"
    by (cases op) auto
  with Cons show ?case by simp
qed

lemma foldl_writes:
  "foldl apply_op fs (map (Write p) chunks) p =
   (if chunks = [] then fs p else Some ((case fs p of Some c \<Rightarrow> c | None \<Rightarrow> []) @ concat chunks))"
  by (induction chunks arbitrary: fs) (auto split: option.splits)

lemma written_temp:
  "foldl apply_op fs (ops @ [OpenWrite p] @ map (Write p) chunks) p = Some (concat chunks)"
  by (simp add: foldl_writes)

lemma paths_differ:
  "temp_of filename \<noteq> filename"
  "data_dir @ ascii ''/.write_test'' \<noteq> batch_filename L data_dir t"
  "data_dir @ ascii ''/.write_test'' \<noteq> temp_of (batch_filename L data_dir t)"
  by (simp_all add: temp_of_def batch_filename_def ascii_def)


lemma after_ops_append:
  "after_ops fs (W @ T) k = foldl apply_op (foldl apply_op fs (take k W)) (take (k - length W) T)"
  by (simp add: after_ops_def)

lemma take_untouched:
  "\<forall>op \<in> set W. \<not> touches p op \<Longrightarrow> foldl apply_op fs (take k W) p = fs p"
  by (rule foldl_untouched) (auto dest: in_set_takeD)

lemma rename_states:
  assumes "\<forall>op \<in> set W. \<not> touches final op" and "foldl apply_op fs W temp = Some full"
    and "temp \<noteq> final"
  shows "after_ops fs (W @ [Rename temp final]) k final = fs final \<or>
         after_ops fs (W @ [Rename temp final]) k final = Some full"
proof (cases "k \<le> length W")
  case True
  then show ?thesis
    using assms(1) by (simp add: after_ops_append take_untouched)
next
  case False
  then have "take k W = W" and "take (k - length W) [Rename temp final] = [Rename temp final]"
    by (simp_all add: take_Cons')
  then show ?thesis
    using assms(2,3) by (simp add: after_ops_append)
qed

lemma remove_rename_states:
  assumes "\<forall>op \<in> set W. \<not> touches final op" and "foldl apply_op fs W temp = Some full"
    and "temp \<noteq> final"
  shows "after_ops fs (W @ [Remove final, Rename temp final]) k final = fs final \<or>
         after_ops fs (W @ [Remove final, Rename temp final]) k final = None \<or>
         after_ops fs (W @ [Remove final, Rename temp final]) k final = Some full"
proof (cases "k \<le> length W")
  case True
  then show ?thesis
    using assms(1) by (simp add: after_ops_append take_untouched)
next
  case False
  then have w: "take k W = W"
    by simp
  show ?thesis
  proof (cases "k = Suc (length W)")
    case True
    then show ?thesis
      by (simp add: after_ops_append w)
  next
    case False
    with \<open>\<not> k \<le> length W\<close>
    have "take (k - length W) [Remove final, Rename temp final] = [Remove final, Rename temp final]"
      by (simp add: take_Cons' Suc_diff_le)
    then show ?thesis
      using assms(2,3) by (simp add: after_ops_append w)
  qed
qed

lemma save_states:
  assumes "transactions_list \<noteq> []"
  shows "after_ops fs (save_transactions_to_file L data_dir t fs transactions_list) k
           (batch_filename L data_dir t) \<in>
         {fs (batch_filename L data_dir t), None,
          Some (concat (json_dump L (data_to_save L t transactions_list)))}"
proof -
  let ?final = "batch_filename L data_dir t"
  let ?temp = "temp_of ?final"
  let ?test = "data_dir @ ascii ''/.write_test''"
  let ?chunks = "json_dump L (data_to_save L t transactions_list)"
  let ?W = "[Makedirs data_dir, OpenWrite ?test, Write ?test (ascii ''test''), Remove ?test] @
            [OpenWrite ?temp] @ map (Write ?temp) ?chunks"
  have untouched: "\<forall>op \<in> set ?W. \<not> touches ?final op"
    using paths_differ(1) [of ?final] paths_differ(2,3) [of data_dir L t] by auto
  have temp: "foldl apply_op fs ?W ?temp = Some (concat ?chunks)"
    by (rule written_temp)
  have ne: "?temp \<noteq> ?final"
    by (rule paths_differ)
  show ?thesis
  proof (cases "fs ?final = None")
    case True
    then have "save_transactions_to_file L data_dir t fs transactions_list = ?W @ [Rename ?temp ?final]"
      using assms by (simp add: save_transactions_to_file_def Let_def)
    with rename_states [OF untouched temp ne, of k] show ?thesis
      by auto
  next
    case False
    then have "save_transactions_to_file L data_dir t fs transactions_list =
        ?W @ [Remove ?final, Rename ?temp ?final]"
      using assms by (simp add: save_transactions_to_file_def Let_def)
    with remove_rename_states [OF untouched temp ne, of k] show ?thesis
      by auto
  qed
qed

lemma save_empty_states:
  "after_ops fs (save_empty_result L data_dir t1 t2 t3) k (batch_filename L data_dir t3) \<in>
     {fs (batch_filename L data_dir t3), Some (concat (json_dump L (empty_data L t1 t2)))}"
proof -
  let ?final = "batch_filename L data_dir t3"
  let ?temp = "temp_of ?final"
  let ?chunks = "json_dump L (empty_data L t1 t2)"
  let ?W = "[Makedirs data_dir] @ [OpenWrite ?temp] @ map (Write ?temp) ?chunks"
  have untouched: "\<forall>op \<in> set ?W. \<not> touches ?final op"
    using paths_differ(1) [of ?final] by auto
  have temp: "foldl apply_op fs ?W ?temp = Some (concat ?chunks)"
    by (rule written_temp)
  have ne: "?temp \<noteq> ?final"
    by (rule paths_differ)
  have "save_empty_result L data_dir t1 t2 t3 = ?W @ [Rename ?temp ?final]"
    by (simp add: save_empty_result_def Let_def)
  with rename_states [OF untouched temp ne, of k] show ?thesis
    by auto
qed

lemma save_complete:
  assumes "transactions_list \<noteq> []"
  shows "foldl apply_op fs (save_transactions_to_file L data_dir t fs transactions_list)
           (batch_filename L data_dir t) =
         Some (concat (json_dump L (data_to_save L t transactions_list)))"
  using assms paths_differ(1) [of "batch_filename L data_dir t"]
  by (simp add: save_transactions_to_file_def Let_def foldl_writes)

lemma save_empty_complete:
  "foldl apply_op fs (save_empty_result L data_dir t1 t2 t3) (batch_filename L data_dir t3) =
   Some (concat (json_dump L (empty_data L t1 t2)))"
  using paths_differ(1) [of "batch_filename L data_dir t3"]
  by (simp add: save_empty_result_def Let_def foldl_writes)


lemma save_last:
  assumes "transactions_list \<noteq> []"
  shows "\<exists>ops. save_transactions_to_file L data_dir t fs transactions_list =
           ops @ [Rename (temp_of (batch_filename L data_dir t)) (batch_filename L data_dir t)] \<and>
         foldl apply_op fs ops (temp_of (batch_filename L data_dir t)) =
           Some (concat (json_dump L (data_to_save L t transactions_list)))"
proof -
  let ?final = "batch_filename L data_dir t"
  let ?temp = "temp_of ?final"
  let ?test = "data_dir @ ascii ''/.write_test''"
  let ?chunks = "json_dump L (data_to_save L t transactions_list)"
  let ?W = "[Makedirs data_dir, OpenWrite ?test, Write ?test (ascii ''test''), Remove ?test] @
            [OpenWrite ?temp] @ map (Write ?temp) ?chunks"
  have temp: "foldl apply_op fs ?W ?temp = Some (concat ?chunks)"
    by (rule written_temp)
  show ?thesis
  proof (cases "fs ?final = None")
    case True
    then have "save_transactions_to_file L data_dir t fs transactions_list = ?W @ [Rename ?temp ?final]"
      using assms by (simp add: save_transactions_to_file_def Let_def)
    with temp show ?thesis
      by blast
  next
    case False
    then have "save_transactions_to_file L data_dir t fs transactions_list =
        (?W @ [Remove ?final]) @ [Rename ?temp ?final]"
      using assms by (simp add: save_transactions_to_file_def Let_def)
    moreover have "foldl apply_op fs (?W @ [Remove ?final]) ?temp = Some (concat ?chunks)"
      using temp paths_differ(1) [of ?final] by simp
    ultimately show ?thesis
      by blast
  qed
qed

lemma save_empty_last:
  "\<exists>ops. save_empty_result L data_dir t1 t2 t3 =
           ops @ [Rename (temp_of (batch_filename L data_dir t3)) (batch_filename L data_dir t3)] \<and>
         foldl apply_op fs ops (temp_of (batch_filename L data_dir t3)) =
           Some (concat (json_dump L (empty_data L t1 t2)))"
proof -
  let ?final = "batch_filename L data_dir t3"
  let ?temp = "temp_of ?final"
  let ?chunks = "json_dump L (empty_data L t1 t2)"
  let ?W = "[Makedirs data_dir] @ [OpenWrite ?temp] @ map (Write ?temp) ?chunks"
  have "foldl apply_op fs ?W ?temp = Some (concat ?chunks)"
    by (rule written_temp)
  moreover have "save_empty_result L data_dir t1 t2 t3 = ?W @ [Rename ?temp ?final]"
    by (simp add: save_empty_result_def Let_def)
  ultimately show ?thesis
    by blast
qed

lemmas ref_eval = ref_lib_def ref_strptime_def ref_strftime_def render_def civil_def number_def
  sub_def seps_def days_from_civil_def days_in_month_def is_leap_def pad2_def pad4_def
  civil_from_days_def civil_of_doe_def civil_of_yoe_def civil_of_doy_def civil_of_mp_def
  month_of_def seconds_def minutes_def hours_def ascii_def


text \<open>
  C9. Both persisting paths write the whole batch to the temporary file and rename it to
  the batch's name as their last file operation. Whatever the number \<open>k\<close> of
  operations carried out when a reader looks, or when an operation raises or the process
  dies, the file under the batch's name is the one that was there before, or absent
  (only where \<open>save_transactions_to_file\<close> removes an old file of the same name before
  the rename), or the complete new batch: never a part of it. After all operations it is
  the complete batch.
\<close>

theorem batch_file_never_partial:
  "(transactions_list \<noteq> [] \<longrightarrow>
      after_ops fs (save_transactions_to_file L data_dir t fs transactions_list) k
          (batch_filename L data_dir t) \<in>
        {fs (batch_filename L data_dir t), None,
         Some (concat (json_dump L (data_to_save L t transactions_list)))} \<and>
      foldl apply_op fs (save_transactions_to_file L data_dir t fs transactions_list)
          (batch_filename L data_dir t) =
        Some (concat (json_dump L (data_to_save L t transactions_list))) \<and>
      (\<exists>ops. save_transactions_to_file L data_dir t fs transactions_list =
           ops @ [Rename (temp_of (batch_filename L data_dir t)) (batch_filename L data_dir t)] \<and>
         foldl apply_op fs ops (temp_of (batch_filename L data_dir t)) =
           Some (concat (json_dump L (data_to_save L t transactions_list))))) \<and>
   after_ops fs (save_empty_result L data_dir t1 t2 t3) k (batch_filename L data_dir t3) \<in>
     {fs (batch_filename L data_dir t3), Some (concat (json_dump L (empty_data L t1 t2)))} \<and>
   foldl apply_op fs (save_empty_result L data_dir t1 t2 t3) (batch_filename L data_dir t3) =
     Some (concat (json_dump L (empty_data L t1 t2))) \<and>
   (\<exists>ops. save_empty_result L data_dir t1 t2 t3 =
           ops @ [Rename (temp_of (batch_filename L data_dir t3)) (batch_filename L data_dir t3)] \<and>
         foldl apply_op fs ops (temp_of (batch_filename L data_dir t3)) =
           Some (concat (json_dump L (empty_data L t1 t2))))"
  using save_states [of transactions_list fs L data_dir t k] save_complete [of transactions_list fs L data_dir t]
    save_last [of transactions_list L data_dir t fs]
    save_empty_states [of fs L data_dir t1 t2 t3 k] save_empty_complete [of fs L data_dir t1 t2 t3]
    save_empty_last [of L data_dir t1 t2 t3 fs]
  by blast

theorem batch_file_never_partial_witness:
  "items_F \<noteq> [] \<and>
   foldl apply_op Map.empty
       (save_transactions_to_file ref_lib (ascii ''/app/data'') 1749117680000000 Map.empty items_F)
       (batch_filename ref_lib (ascii ''/app/data'') 1749117680000000) =
     Some (ascii ''{...}'') \<and>
   batch_filename ref_lib (ascii ''/app/data'') 1749117680000000 =
     ascii ''/app/data/mb_biz_transactions_20250605_100120.json''"
proof -
  have n: "items_F \<noteq> []"
    by (simp add: items_F_def)
  have c: "concat (json_dump ref_lib (data_to_save ref_lib 1749117680000000 items_F)) = ascii ''{...}''"
    by (simp add: ref_lib_def ascii_def)
  have f: "batch_filename ref_lib (ascii ''/app/data'') 1749117680000000 =
     ascii ''/app/data/mb_biz_transactions_20250605_100120.json''"
    by (simp add: batch_filename_def ref_eval)
  from batch_file_never_partial [of items_F Map.empty ref_lib "ascii ''/app/data''" 1749117680000000] n
  have "foldl apply_op Map.empty
       (save_transactions_to_file ref_lib (ascii ''/app/data'') 1749117680000000 Map.empty items_F)
       (batch_filename ref_lib (ascii ''/app/data'') 1749117680000000) =
     Some (concat (json_dump ref_lib (data_to_save ref_lib 1749117680000000 items_F)))"
    by blast
  with n c f show ?thesis
    by (simp only: simp_thms)
qed


subsection \<open>The watermark\<close>

lemma later_of_step:
  "later_of (case latest of None \<Rightarrow> Some t | Some l \<Rightarrow> if l < t then Some t else Some l) ts =
   later_of latest (t # ts)"
proof (cases latest)
  case None
  then show ?thesis by (simp add: later_of_def)
next
  case (Some l)
  have "Max (insert l (insert t (set ts))) = Max (insert t (insert l (set ts)))"
    by (simp add: insert_commute)
  moreover have "l < t \<Longrightarrow> Max (insert t (set ts)) = Max (insert l (insert t (set ts)))"
    by (cases "ts = []") (simp_all add: max_def)
  moreover have "\<not> l < t \<Longrightarrow> Max (insert l (set ts)) = Max (insert l (insert t (set ts)))"
    by (cases "ts = []") (auto simp: max_def)
  ultimately show ?thesis
    using Some by (simp add: later_of_def)
qed

lemma latest_loop_dated:
  "list_all dated_item items \<Longrightarrow>
   latest_loop L items latest = Inr (later_of latest (transaction_times L items))"
proof (induction items arbitrary: latest)
  case Nil
  then show ?case
    by (simp add: later_of_def transaction_times_def map_filter_simps split: option.splits)
next
  case (Cons item items)
  then obtain txn s where item: "item = JDict txn" and s: "dget txn NGAY_GIAO_DICH (JStr []) = JStr s"
    by (cases item) (auto split: json.splits)
  from Cons have IH: "\<And>latest. latest_loop L items latest = Inr (later_of latest (transaction_times L items))"
    by simp
  have g: "get_strip txn NGAY_GIAO_DICH = Inr (strip s)"
    by (simp add: get_strip_def s)
  show ?case
  proof (cases "transaction_time L item")
    case None
    then have "transaction_times L (item # items) = transaction_times L items"
      by (simp add: transaction_times_def map_filter_simps)
    moreover from None have "latest_loop L (item # items) latest = latest_loop L items latest"
      by (auto simp: item g transaction_time_def s split: if_splits)
    ultimately show ?thesis
      by (simp add: IH)
  next
    case (Some t)
    then have "transaction_times L (item # items) = t # transaction_times L items"
      by (simp add: transaction_times_def map_filter_simps)
    moreover from Some have "strip s \<noteq> []" and "parse_transaction_time L (strip s) = Some t"
      by (auto simp: item transaction_time_def s split: if_splits)
    then have "latest_loop L (item # items) latest =
        latest_loop L items (case latest of None \<Rightarrow> Some t | Some l \<Rightarrow> if l < t then Some t else Some l)"
      by (simp add: item g)
    ultimately show ?thesis
      by (simp add: IH later_of_step)
  qed
qed


lemma get_last_no_files: "get_last_fetch_time_from_json L later [] = None"
  by (simp add: get_last_fetch_time_from_json_def newest_file_def)

lemma get_last_transactions:
  assumes "newest_file files = Some newest" and "content newest = Some (JDict data)"
    and "dget data (ascii ''transactions'') (JList []) = JList items"
    and "list_all dated_item items" and "transaction_times L items \<noteq> []"
  shows "get_last_fetch_time_from_json L later files = Some (Max (set (transaction_times L items)))"
proof -
  from assms(5) have "items \<noteq> []"
    by (auto simp: transaction_times_def map_filter_simps)
  then show ?thesis
    using assms
    by (simp add: get_last_fetch_time_from_json_def latest_loop_dated later_of_def)
qed

lemma get_last_empty:
  assumes "newest_file files = Some newest" and "content newest = Some (JDict data)"
    and "dget data (ascii ''transactions'') (JList []) = JList []"
    and "dget data (ascii ''timestamp'') JNull = JStr s" and "s \<noteq> []"
    and "\<not> py_in (ascii ''+'') s" and "\<not> py_in (ascii ''Z'') s"
    and "strptime L YMD_HMS s = Some fetched"
  shows "get_last_fetch_time_from_json L later files = Some fetched"
  using assms
  by (simp add: get_last_fetch_time_from_json_def fetch_timestamp_of_empty_def)

text \<open>
  C2 (as amended). The watermark is a string of minute resolution. With no batch file it
  renders the start of the current day. When the newest batch holds transactions with
  readable dates, at least one of which parses, it renders the latest of their times
  less two minutes. When the newest batch holds no transactions and its fetch timestamp
  parses, it renders that timestamp less two minutes: the buffer is taken off the
  fall-back value as well.
\<close>

theorem watermark_of_history:
  "get_from_date_for_fetch L current_time later [] = strftime L DMY_HM (start_of_day current_time) \<and>
   (newest_file files = Some newest \<and> content newest = Some (JDict data) \<and>
    dget data (ascii ''transactions'') (JList []) = JList items \<and>
    list_all dated_item items \<and> transaction_times L items \<noteq> [] \<longrightarrow>
      get_from_date_for_fetch L current_time later files =
        strftime L DMY_HM (Max (set (transaction_times L items)) - minutes 2)) \<and>
   (newest_file files = Some newest \<and> content newest = Some (JDict data) \<and>
    dget data (ascii ''transactions'') (JList []) = JList [] \<and>
    dget data (ascii ''timestamp'') JNull = JStr s \<and> s \<noteq> [] \<and>
    \<not> py_in (ascii ''+'') s \<and> \<not> py_in (ascii ''Z'') s \<and> strptime L YMD_HMS s = Some fetched \<longrightarrow>
      get_from_date_for_fetch L current_time later files = strftime L DMY_HM (fetched - minutes 2))"
  by (simp add: get_from_date_for_fetch_def get_last_no_files get_last_transactions get_last_empty)

lemmas history_eval = batch_E_def batch_F_def data_E_def data_F_def items_F_def dated_txn_def
  newest_file_def dget_def NGAY_GIAO_DICH_def SO_BUT_TOAN_def strip_def isspace_def
  transaction_times_def transaction_time_def map_filter_simps parse_transaction_time_def

lemma batch_F_facts:
  "newest_file [batch_E, batch_F] = Some batch_F"
  "content batch_F = Some (JDict data_F)"
  "dget data_F (ascii ''transactions'') (JList []) = JList items_F"
  "list_all dated_item items_F"
  "transaction_times ref_lib items_F = [1749117660000000, 1749117570000000]"
  "strftime ref_lib DMY_HM (1749117660000000 - minutes 2) = ascii ''05/06/2025 09:59''"
  by (simp_all add: history_eval ref_eval)

lemma batch_E_facts:
  "newest_file [batch_E] = Some batch_E"
  "content batch_E = Some (JDict data_E)"
  "dget data_E (ascii ''transactions'') (JList []) = JList []"
  "dget data_E (ascii ''timestamp'') JNull = JStr (ascii ''2025-06-05 10:00:00'')"
  "ascii ''2025-06-05 10:00:00'' \<noteq> []"
  "\<not> py_in (ascii ''+'') (ascii ''2025-06-05 10:00:00'')"
  "\<not> py_in (ascii ''Z'') (ascii ''2025-06-05 10:00:00'')"
  "strptime ref_lib YMD_HMS (ascii ''2025-06-05 10:00:00'') = Some 1749117600000000"
  "strftime ref_lib DMY_HM (1749117600000000 - minutes 2) = ascii ''05/06/2025 09:58''"
  "strftime ref_lib DMY_HM 1749117600000000 = ascii ''05/06/2025 10:00''"
  by (simp_all add: history_eval ref_eval)

text \<open>
  C2 as stated fails: for a newest batch without transactions, fetched at 10:00:00, the
  watermark is 09:58 and not the batch's fetch timestamp.
\<close>

theorem watermark_of_empty_batch_is_buffered:
  "get_from_date_for_fetch ref_lib 1749117620000000 1749117620000000 [batch_E] = ascii ''05/06/2025 09:58'' \<and>
   dget data_E (ascii ''timestamp'') JNull = JStr (ascii ''2025-06-05 10:00:00'') \<and>
   strptime ref_lib YMD_HMS (ascii ''2025-06-05 10:00:00'') = Some 1749117600000000 \<and>
   strftime ref_lib DMY_HM 1749117600000000 = ascii ''05/06/2025 10:00''"
proof -
  have "get_last_fetch_time_from_json ref_lib 1749117620000000 [batch_E] = Some 1749117600000000"
    using batch_E_facts(1-8) by (rule get_last_empty)
  then have "get_from_date_for_fetch ref_lib 1749117620000000 1749117620000000 [batch_E] =
      ascii ''05/06/2025 09:58''"
    by (simp add: get_from_date_for_fetch_def batch_E_facts(9))
  with batch_E_facts(4,8,10) show ?thesis
    by simp
qed

theorem watermark_of_history_witness:
  "newest_file [batch_E, batch_F] = Some batch_F \<and> content batch_F = Some (JDict data_F) \<and>
   dget data_F (ascii ''transactions'') (JList []) = JList items_F \<and>
   list_all dated_item items_F \<and>
   transaction_times ref_lib items_F = [1749117660000000, 1749117570000000] \<and>
   get_from_date_for_fetch ref_lib 0 0 [batch_E, batch_F] = ascii ''05/06/2025 09:59'' \<and>
   newest_file [batch_E] = Some batch_E \<and> content batch_E = Some (JDict data_E) \<and>
   strptime ref_lib YMD_HMS (ascii ''2025-06-05 10:00:00'') = Some 1749117600000000 \<and>
   get_from_date_for_fetch ref_lib 0 0 [batch_E] = ascii ''05/06/2025 09:58''"
proof -
  have m: "Max (set [1749117660000000, 1749117570000000 :: int]) = 1749117660000000"
    by simp
  have ne: "transaction_times ref_lib items_F \<noteq> []"
    by (simp add: batch_F_facts(5))
  from watermark_of_history [of ref_lib 0 0 "[batch_E, batch_F]" batch_F data_F items_F]
    batch_F_facts(1-4) ne
  have "get_from_date_for_fetch ref_lib 0 0 [batch_E, batch_F] =
      strftime ref_lib DMY_HM (Max (set (transaction_times ref_lib items_F)) - minutes 2)"
    by blast
  then have f: "get_from_date_for_fetch ref_lib 0 0 [batch_E, batch_F] = ascii ''05/06/2025 09:59''"
    unfolding batch_F_facts(5) m by (simp only: batch_F_facts(6))
  from watermark_of_history [of ref_lib 0 0 "[batch_E]" batch_E data_E _ "ascii ''2025-06-05 10:00:00''"
      1749117600000000] batch_E_facts(1-8)
  have "get_from_date_for_fetch ref_lib 0 0 [batch_E] =
      strftime ref_lib DMY_HM (1749117600000000 - minutes 2)"
    by blast
  then have e: "get_from_date_for_fetch ref_lib 0 0 [batch_E] = ascii ''05/06/2025 09:58''"
    by (simp only: batch_E_facts(9))
  from f e batch_F_facts(1-5) batch_E_facts(1,2,8) show ?thesis
    by blast
qed


subsection \<open>Health check and recovery\<close>

lemmas block_defs = health_check_block_def recover_def finally_clause_def shutdown_environment_def
  slept_before_def exit_status_def state_of_def Let_def

lemma guarded_block:
  "recovery_in_progress st \<Longrightarrow> health_check_block w current_time st = ([], Running st)"
  by (simp add: health_check_block_def)

lemma dead_block:
  assumes "10 \<le> current_time - last_health_check st" and "\<not> recovery_in_progress st"
    and "session_dead w"
  shows "take 4 (fst (health_check_block w current_time st)) =
           [CheckSession, Sleep 60, Sleep 60, Sleep 60] \<and>
         CheckSession \<notin> set (tl (fst (health_check_block w current_time st))) \<and>
         count_list (fst (health_check_block w current_time st)) LogIn = (if init_driver_ok w then 1 else 0) \<and>
         180 \<le> slept_before LogIn (fst (health_check_block w current_time st)) \<and>
         \<not> recovery_in_progress (state_of (snd (health_check_block w current_time st))) \<and>
         (init_driver_ok w \<and> login_reply w = Logged True \<longrightarrow>
            exit_status (snd (health_check_block w current_time st)) = None) \<and>
         (init_driver_ok w \<and> login_reply w = Logged False \<longrightarrow>
            (\<exists>before. fst (health_check_block w current_time st) =
               before @ [LogIn, Notify, LogOut, CloseDriver, DockerComposeDown, Sleep 10] \<and>
               LogIn \<notin> set before) \<and>
            exit_status (snd (health_check_block w current_time st)) = Some 1)"
  using assms
  by (cases "login_reply w"; cases "init_driver_ok w"; cases "webdriver_instance st")
     (auto simp: block_defs split: bool.splits)

text \<open>
  With the flag set the block does nothing; and after a dead report it sleeps three times
  sixty seconds right after the check, checks the session no second time, calls
  \<open>log_in_v2\<close> at most once and never before 180 seconds of sleep, and leaves with the
  flag reset (the two lemmas above). A recovery login that returns failure is notified
  before the shutdown:
\<close>

lemma refused_login_notifies:
  "fst (health_check_block login_refused 110 running_scheduler) =
     [CheckSession, Sleep 60, Sleep 60, Sleep 60, LogOut, Sleep 2, CloseDriver, Sleep 5,
      InitializeDriver, LogIn, Notify, LogOut, CloseDriver, DockerComposeDown, Sleep 10] \<and>
   exit_status (snd (health_check_block login_refused 110 running_scheduler)) = Some 1"
  by (simp add: block_defs running_scheduler_def login_refused_def session_dead_def)

text \<open>
  C4. A check that is due reports the session dead, and the one recovery attempt fails
  because \<open>log_in_v2\<close> raises: after the cooldown and the login attempt the
  environment is shut down and the process ends with status 1, but no notification is
  pushed. When no new driver can be made the process ends with status 1 after the
  cooldown with no login attempt, no notification and no \<open>docker-compose down\<close>.
\<close>

theorem recovery_raise_exits_without_notification:
  "10 \<le> 110 - last_health_check running_scheduler \<and>
   \<not> recovery_in_progress running_scheduler \<and>
   session_dead login_raises \<and> login_reply login_raises = LoginRaised \<and>
   fst (health_check_block login_raises 110 running_scheduler) =
     [CheckSession, Sleep 60, Sleep 60, Sleep 60, LogOut, Sleep 2, CloseDriver, Sleep 5,
      InitializeDriver, LogIn, LogOut, CloseDriver, DockerComposeDown, Sleep 10] \<and>
   exit_status (snd (health_check_block login_raises 110 running_scheduler)) = Some 1 \<and>
   session_dead no_driver \<and> \<not> init_driver_ok no_driver \<and>
   fst (health_check_block no_driver 110 running_scheduler) =
     [CheckSession, Sleep 60, Sleep 60, Sleep 60, LogOut, Sleep 2, CloseDriver, Sleep 5,
      InitializeDriver, Sleep 10] \<and>
   exit_status (snd (health_check_block no_driver 110 running_scheduler)) = Some 1"
  by (simp add: block_defs running_scheduler_def login_raises_def no_driver_def session_dead_def)

end
